theory Spec2Isabelle
  imports Main "HOL-Library.Sublist" "HOL-Library.Multiset"
begin

section \<open>The sass-bundler coordinator (class Bundler)\<close>

text \<open>
  A shallow embedding of the TypeScript class \<^verbatim>\<open>Bundler\<close> and of the helper functions
  beside it. The stylesheet compiler (\<^verbatim>\<open>sass.renderSync\<close>), the directory listing
  (\<^verbatim>\<open>fse.readdirSync\<close>) and the contents of the source tree are collaborators of the class:
  they are the fields of the record \<open>env\<close>, handed to every operation. The output files are
  a map from paths to contents, beside the set of the directories that exist. Paths are
  absolute, normalised POSIX paths without a trailing slash. Lines printed with
  \<^verbatim>\<open>console.log\<close> are not modelled; the lines of \<^verbatim>\<open>console.warn\<close> and \<^verbatim>\<open>console.error\<close>
  are collected in \<open>stderr\<close>.

  An async method is a function from the state to an outcome and the new state. An
  awaited call runs to its end before the caller goes on; a call that throws ends the
  caller with the same exception, the state keeping what was changed until then.

  A file-system call that the code issues without waiting for it (the open behind
  \<^verbatim>\<open>fse.createWriteStream\<close>) is recorded with its effect when it is issued: the files of a
  state are the files as they are once the calls issued so far have completed.
\<close>

subsection \<open>Strings and paths\<close>

definition startsWith :: "string \<Rightarrow> string \<Rightarrow> bool" where
  "startsWith s p = prefix p s"

text \<open>\<^verbatim>\<open>s.replace(pat, rep)\<close> with a string pattern: the first occurrence only.\<close>

fun replace_first :: "string \<Rightarrow> string \<Rightarrow> string \<Rightarrow> string" where
  "replace_first pat rep [] = (if pat = [] then rep else [])"
| "replace_first pat rep (c # cs) =
     (if prefix pat (c # cs) then rep @ drop (length pat) (c # cs)
      else c # replace_first pat rep cs)"

text \<open>\<^verbatim>\<open>s.replace(/\.s[ca]ss$/, ".css")\<close>.\<close>

definition replace_ext :: "string \<Rightarrow> string" where
  "replace_ext s =
     (if suffix ''.scss'' s \<or> suffix ''.sass'' s then take (length s - 5) s @ ''.css'' else s)"

text \<open>
  The functions of Node's \<^verbatim>\<open>path\<close> module. \<^verbatim>\<open>path.resolve(p)\<close> leaves an absolute
  normalised path as it is. \<^verbatim>\<open>path.join\<close> puts one separator between its arguments.
\<close>

definition path_resolve :: "string \<Rightarrow> string" where
  "path_resolve p = p"

text \<open>The segments of a path: the texts between its separators.\<close>

fun split_path :: "string \<Rightarrow> string list" where
  "split_path [] = [[]]"
| "split_path (c # cs) =
     (if c = CHR ''/'' then [] # split_path cs
      else (case split_path cs of [] \<Rightarrow> [[c]] | s # ss \<Rightarrow> (c # s) # ss))"

text \<open>
  Normalising the segments of an absolute path: empty segments and \<^verbatim>\<open>.\<close> are dropped,
  \<^verbatim>\<open>..\<close> drops the segment before it, if there is one. \<open>acc\<close> holds the segments kept so
  far, the last one first.
\<close>

fun resolve_segments :: "string list \<Rightarrow> string list \<Rightarrow> string list" where
  "resolve_segments acc [] = rev acc"
| "resolve_segments acc (s # ss) =
     (if s = [] \<or> s = ''.'' then resolve_segments acc ss
      else if s = ''..'' then resolve_segments (tl acc) ss
      else resolve_segments (s # acc) ss)"

definition path_normalize :: "string \<Rightarrow> string" where
  "path_normalize p =
     (case resolve_segments [] (split_path p) of
        [] \<Rightarrow> ''/''
      | segs \<Rightarrow> concat (map (\<lambda>s. ''/'' @ s) segs))"

text \<open>
  \<^verbatim>\<open>path.resolve(base, rel)\<close> for an absolute \<open>base\<close>: an absolute \<open>rel\<close> stands for itself,
  any other is put behind \<open>base\<close>, and the result is normalised.
\<close>

definition path_resolve2 :: "string \<Rightarrow> string \<Rightarrow> string" where
  "path_resolve2 base rel =
     path_normalize (if prefix ''/'' rel then rel else base @ ''/'' @ rel)"

definition path_join :: "string \<Rightarrow> string \<Rightarrow> string" where
  "path_join a b = (if prefix ''/'' b then a @ b else a @ ''/'' @ b)"

definition path_basename :: "string \<Rightarrow> string" where
  "path_basename p = rev (takeWhile (\<lambda>c. c \<noteq> CHR ''/'') (rev p))"

text \<open>\<^verbatim>\<open>path.dirname(p)\<close>: the path without its last segment.\<close>

definition path_dirname :: "string \<Rightarrow> string" where
  "path_dirname p =
     (let d = rev (drop 1 (dropWhile (\<lambda>c. c \<noteq> CHR ''/'') (rev p)))
      in if d = [] then (if prefix ''/'' p then ''/'' else ''.'') else d)"

text \<open>\<^verbatim>\<open>relativePath(path0, path1)\<close>.\<close>

definition relativePath :: "string \<Rightarrow> string \<Rightarrow> string" where
  "relativePath path0 path1 = replace_first (path_resolve path1) [] (path_resolve path0)"

text \<open>Whether the path \<open>p\<close> lies in the directory \<open>d\<close> (at any depth).\<close>

definition inside :: "string \<Rightarrow> string \<Rightarrow> bool" where
  "inside d p = prefix (d @ ''/'') p"

subsection \<open>Data\<close>

record Config =
  verbose :: bool
  sassDir :: string
  outDir :: string
  sharedPath :: string

text \<open>
  A write stream made by \<^verbatim>\<open>fse.createWriteStream\<close>: its path, and whether it has been
  ended. The read stream \<^verbatim>\<open>Readable.from(css)\<close> is the text it will deliver.
\<close>

record WriteStream =
  wpath :: string
  ended :: bool

record CompiledFile =
  importsList :: "string list"
  filePath :: string
  readStream :: "string option"
  writeStream :: "WriteStream option"
  error :: bool

datatype exn = TypeError | SassError string | FsError

text \<open>
  How an operation ends: it returns, it throws (an async function's promise is rejected),
  or it pipes into a write stream that has already ended. In the last case no data is
  written; what the stream library does then is not modelled further.
\<close>

datatype outcome = Returned | Threw exn | Stuck

datatype render_result = Failed string | Css string

text \<open>
  The collaborators. \<open>renderWithImporter f\<close> is \<^verbatim>\<open>sass.renderSync\<close> on the file \<open>f\<close> with
  the bundler's importer: the URLs the importer was called with, in order, and the result.
  \<open>renderPlain f\<close> is \<^verbatim>\<open>sass.renderSync\<close> without an importer. \<open>listing d\<close> is what the
  source tree holds in the directory \<open>d\<close>, files and subdirectories alike.
\<close>

record env =
  renderWithImporter :: "string \<Rightarrow> string list \<times> render_result"
  renderPlain :: "string \<Rightarrow> render_result"
  listing :: "string \<Rightarrow> string list"

text \<open>
  \<^verbatim>\<open>fse.readdirSync(d)\<close>: the names in the directory \<open>d\<close>. A name in a directory never
  holds a separator.
\<close>

definition readdirSync :: "env \<Rightarrow> string \<Rightarrow> string list" where
  "readdirSync e d = filter (\<lambda>name. CHR ''/'' \<notin> set name) (listing e d)"

text \<open>A full build that was started and not awaited: the compiled files still to bundle.\<close>

datatype pending = PendingBuild bool "CompiledFile list" "string list"

text \<open>
  The state of the process: the module-level variable \<^verbatim>\<open>errorDetectedThisCycle\<close>, the
  output files, the directories that exist, the lines written to standard error, and the
  builds in flight.
\<close>

record proc =
  errorDetectedThisCycle :: bool
  disk :: "string \<Rightarrow> string option"
  dirs :: "string \<Rightarrow> bool"
  stderr :: "string list"
  inflight :: "pending list"

text \<open>Whether the directory \<open>d\<close> exists; the root and the working directory always do.\<close>

definition dirExists :: "proc \<Rightarrow> string \<Rightarrow> bool" where
  "dirExists g d = (d = ''/'' \<or> d = ''.'' \<or> dirs g d)"

text \<open>The fields of one \<^verbatim>\<open>Bundler\<close> instance.\<close>

record Bundler =
  config :: Config
  compiledFiles :: "CompiledFile list option"
  commonImports :: "string list option"
  compilationError :: bool

subsection \<open>Helper functions of the module\<close>

text \<open>\<^verbatim>\<open>removeA(arr, ...args)\<close>: for each argument, its first occurrence is spliced out.\<close>

definition removeA :: "'a list \<Rightarrow> 'a list \<Rightarrow> 'a list" where
  "removeA arr args = foldl (\<lambda>arrCopy arg. remove1 arg arrCopy) arr args"

text \<open>
  \<^verbatim>\<open>equalsIgnoreOrder(a, b)\<close>: equal lengths, and every value of the two arrays occurs
  equally often in both. The order in which the values are visited does not matter to
  the answer.
\<close>

definition equalsIgnoreOrder :: "'a list \<Rightarrow> 'a list \<Rightarrow> bool" where
  "equalsIgnoreOrder a b =
     (if length a \<noteq> length b then False
      else list_all (\<lambda>v. length (filter (\<lambda>e. e = v) a) = length (filter (\<lambda>e. e = v) b))
             (remdups (a @ b)))"

text \<open>\<^verbatim>\<open>arr.findIndex(p)\<close>, with \<open>None\<close> for \<open>-1\<close>.\<close>

fun findIndex :: "('a \<Rightarrow> bool) \<Rightarrow> 'a list \<Rightarrow> nat option" where
  "findIndex p [] = None"
| "findIndex p (x # xs) =
     (if p x then Some 0 else map_option Suc (findIndex p xs))"

subsection \<open>The common-import analysis\<close>

definition isCommonImport :: "string \<Rightarrow> CompiledFile list \<Rightarrow> bool" where
  "isCommonImport importFile files =
     list_all (\<lambda>importsArr. importFile \<in> set importsArr) (map importsList files)"

text \<open>
  \<^verbatim>\<open>identifyCommonImports(files)\<close>. The copy is sorted by the number of imports
  (\<^verbatim>\<open>Array.prototype.sort\<close> is stable); on an empty array \<^verbatim>\<open>filesCopy[0]\<close> is undefined
  and reading its \<^verbatim>\<open>imports\<close> throws a TypeError.
\<close>

definition identifyCommonImports :: "CompiledFile list \<Rightarrow> exn + string list" where
  "identifyCommonImports files =
     (case sort_key (\<lambda>f. length (importsList f)) files of
        [] \<Rightarrow> Inl TypeError
      | f0 # _ \<Rightarrow> Inr (filter (\<lambda>i. isCommonImport i files) (importsList f0)))"

subsection \<open>Compiling\<close>

text \<open>
  The importer made by \<^verbatim>\<open>sassImporter(fileOutput)\<close>, run over the URLs the compiler
  hands it: the paths it pushes onto \<^verbatim>\<open>fileOutput.imports\<close>.
\<close>

definition sassImporter :: "Config \<Rightarrow> string list \<Rightarrow> string list" where
  "sassImporter cfg urls =
     map (\<lambda>url. path_resolve2 (sassDir cfg) (replace_first ''!bundler'' ''.'' url))
       (filter (\<lambda>url. startsWith url ''!bundler'') urls)"

text \<open>
  \<^verbatim>\<open>fse.createWriteStream(p)\<close> returns the stream at once and opens the file \<open>p\<close> for
  writing behind it, asynchronously. When the directory of \<open>p\<close> exists the open creates the
  file, or truncates it. When it does not, the open fails and no file is created; the
  error event that the stream then emits is not modelled.
\<close>

definition openFile :: "string \<Rightarrow> proc \<Rightarrow> proc" where
  "openFile p g =
     (if dirExists g (path_dirname p) then g\<lparr>disk := (disk g)(p \<mapsto> [])\<rparr> else g)"

definition createWriteStream :: "string \<Rightarrow> proc \<Rightarrow> WriteStream \<times> proc" where
  "createWriteStream p g = (\<lparr>wpath = p, ended = False\<rparr>, openFile p g)"

text \<open>
  The data of one \<^verbatim>\<open>pipePromise\<close> arriving in the file of a write stream. When there is
  no file at the path of the stream (its open failed, or the file was unlinked while the
  stream was open) no file changes.
\<close>

definition pipeInto :: "string \<Rightarrow> WriteStream \<Rightarrow> proc \<Rightarrow> proc" where
  "pipeInto data ws g =
     (case disk g (wpath ws) of
        None \<Rightarrow> g
      | Some old \<Rightarrow> g\<lparr>disk := (disk g)(wpath ws \<mapsto> old @ data)\<rparr>)"

text \<open>The output path \<^verbatim>\<open>absoluteCssPath\<close> that \<^verbatim>\<open>compileSingle\<close> computes.\<close>

definition absoluteCssPath :: "Config \<Rightarrow> string \<Rightarrow> string" where
  "absoluteCssPath cfg filePath' =
     path_join (outDir cfg) (replace_ext (relativePath filePath' (sassDir cfg)))"

fun compileSingle :: "env \<Rightarrow> string \<Rightarrow> proc \<times> Bundler \<Rightarrow> CompiledFile \<times> proc \<times> Bundler" where
  "compileSingle e filePath' (g, b) =
     (case renderWithImporter e filePath' of
        (urls, result) \<Rightarrow>
          let output = \<lparr>importsList = sassImporter (config b) urls, filePath = filePath',
                        readStream = None, writeStream = None, error = False\<rparr>
          in (case result of
                Failed formatted \<Rightarrow>
                  (output\<lparr>error := True\<rparr>,
                   g\<lparr>stderr := stderr g @ [formatted]\<rparr>,
                   b\<lparr>compilationError := True\<rparr>)
              | Css css \<Rightarrow>
                  (case createWriteStream (absoluteCssPath (config b) filePath') g of
                     (ws, g') \<Rightarrow>
                       (output\<lparr>readStream := Some css, writeStream := Some ws\<rparr>, g', b))))"

fun compileDir_loop ::
  "env \<Rightarrow> string \<Rightarrow> string list \<Rightarrow> CompiledFile list \<Rightarrow> proc \<times> Bundler \<Rightarrow>
   CompiledFile list \<times> proc \<times> Bundler" where
  "compileDir_loop e dirPath [] output s = (output, s)"
| "compileDir_loop e dirPath (file # rest) output s =
     (if startsWith file ''_'' then compileDir_loop e dirPath rest output s
      else (case compileSingle e (path_join dirPath file) s of
              (compiled, s') \<Rightarrow> compileDir_loop e dirPath rest (output @ [compiled]) s'))"

definition compileDir ::
  "env \<Rightarrow> string \<Rightarrow> proc \<times> Bundler \<Rightarrow> CompiledFile list \<times> proc \<times> Bundler" where
  "compileDir e dirPath s = compileDir_loop e dirPath (readdirSync e dirPath) [] s"

subsection \<open>Bundling\<close>

text \<open>The loop of \<^verbatim>\<open>bundleSingle\<close> over the trimmed imports.\<close>

fun bundle_imports ::
  "env \<Rightarrow> string list \<Rightarrow> WriteStream option \<Rightarrow> proc \<Rightarrow> outcome \<times> proc" where
  "bundle_imports e [] ws g = (Returned, g)"
| "bundle_imports e (scssImport # rest) ws g =
     (case renderPlain e scssImport of
        Failed formatted \<Rightarrow> (Threw (SassError formatted), g)
      | Css css \<Rightarrow>
          (case ws of
             None \<Rightarrow> (Threw TypeError, g)
           | Some w \<Rightarrow>
               if ended w then (Stuck, g)
               else bundle_imports e rest ws (pipeInto css w g)))"

text \<open>
  \<^verbatim>\<open>bundleSingle(file, commonImports)\<close>. The file's streams are used up by it: the file is
  returned with its write stream ended.
\<close>

definition bundleSingle ::
  "env \<Rightarrow> CompiledFile \<Rightarrow> string list \<Rightarrow> proc \<Rightarrow> outcome \<times> CompiledFile \<times> proc" where
  "bundleSingle e file commonImports' g =
     (let trimmedImports = removeA (importsList file) commonImports' in
      case bundle_imports e trimmedImports (writeStream file) g of
        (out, g1) \<Rightarrow>
          if out \<noteq> Returned then (out, file, g1)
          else (case readStream file of
                  None \<Rightarrow> (Threw TypeError, file, g1)
                | Some css \<Rightarrow>
                    (case writeStream file of
                       None \<Rightarrow> (Threw TypeError, file, g1)
                     | Some w \<Rightarrow>
                         if ended w then (Stuck, file, g1)
                         else (Returned, file\<lparr>writeStream := Some (w\<lparr>ended := True\<rparr>)\<rparr>,
                               pipeInto css w g1))))"

text \<open>\<^verbatim>\<open>bundle(files, commonImports)\<close>.\<close>

fun bundle_files ::
  "env \<Rightarrow> CompiledFile list \<Rightarrow> string list \<Rightarrow> proc \<Rightarrow>
   outcome \<times> CompiledFile list \<times> proc" where
  "bundle_files e [] commonImports' g = (Returned, [], g)"
| "bundle_files e (file # rest) commonImports' g =
     (case bundleSingle e file commonImports' g of
        (out, file', g1) \<Rightarrow>
          if out \<noteq> Returned then (out, file' # rest, g1)
          else (case bundle_files e rest commonImports' g1 of
                  (out', rest', g2) \<Rightarrow> (out', file' # rest', g2)))"

fun writeCommon_loop ::
  "env \<Rightarrow> string list \<Rightarrow> WriteStream \<Rightarrow> proc \<times> Bundler \<Rightarrow> proc \<times> Bundler" where
  "writeCommon_loop e [] ws s = s"
| "writeCommon_loop e (commonImport # rest) ws (g, b) =
     (case renderPlain e commonImport of
        Failed formatted \<Rightarrow>
          (g\<lparr>stderr := stderr g @ [formatted]\<rparr>, b\<lparr>compilationError := True\<rparr>)
      | Css css \<Rightarrow> writeCommon_loop e rest ws (pipeInto css ws g, b))"

fun writeCommon :: "env \<Rightarrow> string list \<Rightarrow> proc \<times> Bundler \<Rightarrow> proc \<times> Bundler" where
  "writeCommon e commonImports' (g, b) =
     (case createWriteStream (sharedPath (config b)) g of
        (ws, g1) \<Rightarrow> writeCommon_loop e commonImports' ws (g1, b))"

subsection \<open>The full build\<close>

text \<open>
  \<^verbatim>\<open>cleanDist()\<close>: \<^verbatim>\<open>ensureDirSync\<close> makes the output directory and the directories above
  it, \<^verbatim>\<open>emptyDirSync\<close> removes the files and the directories in it.
\<close>

definition cleanDist :: "Bundler \<Rightarrow> proc \<Rightarrow> proc" where
  "cleanDist b g =
     g\<lparr>disk := (\<lambda>p. if inside (outDir (config b)) p then None else disk g p),
       dirs := (\<lambda>d. \<not> inside (outDir (config b)) d \<and>
                    (d = outDir (config b) \<or> (d \<noteq> [] \<and> inside d (outDir (config b))) \<or>
                     dirs g d))\<rparr>"

text \<open>
  \<^verbatim>\<open>buildAll(persist)\<close> in two parts: what runs before its first \<^verbatim>\<open>await\<close>, and the
  rest. The first part ends the build (\<open>Inl\<close>) or hands the compiled files and the common
  imports to the rest (\<open>Inr\<close>).
\<close>

fun buildAll_start ::
  "env \<Rightarrow> proc \<times> Bundler \<Rightarrow>
   (outcome \<times> proc \<times> Bundler) + (CompiledFile list \<times> string list \<times> proc \<times> Bundler)" where
  "buildAll_start e (g, b) =
     (case compileDir e (sassDir (config b)) (cleanDist b g, b) of
        (files, g2, b2) \<Rightarrow>
          if compilationError b2 then Inl (Returned, g2, b2)
          else (case identifyCommonImports files of
                  Inl x \<Rightarrow> Inl (Threw x, g2, b2)
                | Inr commonImports' \<Rightarrow> Inr (files, commonImports', g2, b2)))"

fun buildAll_rest ::
  "env \<Rightarrow> bool \<Rightarrow> CompiledFile list \<Rightarrow> string list \<Rightarrow> proc \<times> Bundler \<Rightarrow>
   outcome \<times> proc \<times> Bundler" where
  "buildAll_rest e persist files commonImports' (g, b) =
     (case bundle_files e files commonImports' g of
        (out, files', g1) \<Rightarrow>
          if out \<noteq> Returned then (out, g1, b)
          else (case writeCommon e commonImports' (g1, b) of
                  (g2, b2) \<Rightarrow>
                    if compilationError b2 then (Returned, g2, b2)
                    else if persist
                      then (Returned, g2,
                            b2\<lparr>compiledFiles := Some files', commonImports := Some commonImports'\<rparr>)
                      else (Returned, g2, b2)))"

definition buildAll :: "env \<Rightarrow> bool \<Rightarrow> proc \<times> Bundler \<Rightarrow> outcome \<times> proc \<times> Bundler" where
  "buildAll e persist s =
     (case buildAll_start e s of
        Inl r \<Rightarrow> r
      | Inr (files, commonImports', s1) \<Rightarrow> buildAll_rest e persist files commonImports' s1)"

subsection \<open>The handlers of the watcher's events\<close>

definition dquote :: string where
  "dquote = [CHR 0x22]"

definition newline :: string where
  "newline = [CHR 0x0A]"

definition warnNotPersisted :: "string \<Rightarrow> string" where
  "warnNotPersisted ev =
     ''Unable to handle '' @ dquote @ ev @ dquote @
     '' event: No common imports or compiled files have been persisted! Run .buildAll(true) first!''"

definition warnPreviousNotFound :: string where
  "warnPreviousNotFound =
     ''Unable to handle '' @ dquote @ ''change'' @ dquote @
     '' event: Previous compilation of the changed file not found!''"

definition errSharedRemoved :: string where
  "errSharedRemoved = ''Error: Removed file was an in use shared partial. Unable to recompile.''"

definition errMsg :: string where
  "errMsg =
     ''Error: Removed file was an in use partial. Unable to recompile. '' @ newline @
     ''Partial was used by:''"

definition usedFilesMsg :: "CompiledFile list \<Rightarrow> string" where
  "usedFilesMsg affectedFiles =
     foldl (\<lambda>acc cur. acc @ newline @ '' - '' @ cur) '' - '' (map filePath affectedFiles)"

text \<open>
  \<^verbatim>\<open>bundleSingle(file, commonImports)\<close> for a file that is the element \<open>i\<close> of the array
  \<open>cfs\<close> held in \<^verbatim>\<open>this.compiledFiles\<close>: the array sees the file's stream end.
\<close>

fun bundleSingle_at ::
  "env \<Rightarrow> CompiledFile \<Rightarrow> nat \<Rightarrow> CompiledFile list \<Rightarrow> string list \<Rightarrow> proc \<times> Bundler \<Rightarrow>
   outcome \<times> proc \<times> Bundler" where
  "bundleSingle_at e file i cfs commonImports' (g, b) =
     (case bundleSingle e file commonImports' g of
        (out, file', g1) \<Rightarrow> (out, g1, b\<lparr>compiledFiles := Some (cfs[i := file'])\<rparr>))"

text \<open>
  The elements of \<open>cfs\<close> that satisfy \<open>P\<close>, replaced in order by the elements of \<open>new\<close>:
  \<^verbatim>\<open>affectedFiles\<close> holds references into \<^verbatim>\<open>this.compiledFiles\<close>.
\<close>

fun putBack :: "('a \<Rightarrow> bool) \<Rightarrow> 'a list \<Rightarrow> 'a list \<Rightarrow> 'a list" where
  "putBack P [] new = []"
| "putBack P (f # fs) new =
     (if P f then (case new of [] \<Rightarrow> f # fs | n # ns \<Rightarrow> n # putBack P fs ns)
      else f # putBack P fs new)"

text \<open>
  \<^verbatim>\<open>onFileChange\<close> from the call of \<^verbatim>\<open>compileSingle\<close> on; \<open>cfs\<close> and \<open>ci\<close> are
  \<^verbatim>\<open>this.compiledFiles\<close> and \<^verbatim>\<open>this.commonImports\<close>, found not to be null before.
\<close>

fun onFileChange_rest ::
  "env \<Rightarrow> string \<Rightarrow> CompiledFile list \<Rightarrow> string list \<Rightarrow> proc \<times> Bundler \<Rightarrow>
   outcome \<times> proc \<times> Bundler" where
  "onFileChange_rest e filePath' cfs ci (g, b) =
     (case compileSingle e filePath' (g, b) of
        (newFile, g1, b1) \<Rightarrow>
          if compilationError b1 then (Returned, g1\<lparr>errorDetectedThisCycle := True\<rparr>, b1)
          else (case findIndex (\<lambda>f. filePath f = filePath') cfs of
                  None \<Rightarrow> (Returned, g1\<lparr>stderr := stderr g1 @ [warnPreviousNotFound]\<rparr>, b1)
                | Some oldFileIndex \<Rightarrow>
                    let oldFile = cfs ! oldFileIndex;
                        cfs1 = cfs[oldFileIndex := newFile];
                        b2 = b1\<lparr>compiledFiles := Some cfs1\<rparr>
                    in if equalsIgnoreOrder (importsList newFile) (importsList oldFile)
                       then bundleSingle_at e newFile oldFileIndex cfs1 ci (g1, b2)
                       else
                         let removedImports =
                               filter (\<lambda>i. i \<notin> set (importsList newFile)) (importsList oldFile);
                             removedCommonImports = filter (\<lambda>i. i \<in> set ci) removedImports
                         in if length removedCommonImports > 0 then buildAll e True (g1, b2)
                            else
                              let addedImports =
                                    filter (\<lambda>i. i \<notin> set (importsList oldFile)) (importsList newFile)
                              in if length addedImports > 0
                                 then (case identifyCommonImports cfs1 of
                                         Inl x \<Rightarrow> (Threw x, g1, b2)
                                       | Inr newCommonImports \<Rightarrow>
                                           if \<not> equalsIgnoreOrder newCommonImports ci
                                           then buildAll e True (g1, b2)
                                           else bundleSingle_at e newFile oldFileIndex cfs1 ci (g1, b2))
                                 else bundleSingle_at e newFile oldFileIndex cfs1 ci (g1, b2)))"

fun onFileChange :: "env \<Rightarrow> string \<Rightarrow> proc \<times> Bundler \<Rightarrow> outcome \<times> proc \<times> Bundler" where
  "onFileChange e filePath' (g, b) =
     (case commonImports b of
        None \<Rightarrow> (Returned, g\<lparr>stderr := stderr g @ [warnNotPersisted ''change'']\<rparr>, b)
      | Some ci \<Rightarrow>
          (case compiledFiles b of
             None \<Rightarrow> (Returned, g\<lparr>stderr := stderr g @ [warnNotPersisted ''change'']\<rparr>, b)
           | Some cfs \<Rightarrow>
               if startsWith (path_basename filePath') ''_''
               then (if filePath' \<in> set ci
                     then onFileChange_rest e filePath' cfs ci (writeCommon e ci (g, b))
                     else
                       let affected = (\<lambda>f. filePath' \<in> set (importsList f));
                           affectedFiles = filter affected cfs
                       in (case bundle_files e affectedFiles ci g of
                             (out, affectedFiles', g1) \<Rightarrow>
                               (out, g1,
                                b\<lparr>compiledFiles := Some (putBack affected cfs affectedFiles')\<rparr>)))
               else onFileChange_rest e filePath' cfs ci (g, b)))"

fun onFileAdd :: "env \<Rightarrow> string \<Rightarrow> proc \<times> Bundler \<Rightarrow> outcome \<times> proc \<times> Bundler" where
  "onFileAdd e filePath' (g, b) =
     (case commonImports b of
        None \<Rightarrow> (Returned, g\<lparr>stderr := stderr g @ [warnNotPersisted ''add'']\<rparr>, b)
      | Some ci \<Rightarrow>
          (case compiledFiles b of
             None \<Rightarrow> (Returned, g\<lparr>stderr := stderr g @ [warnNotPersisted ''add'']\<rparr>, b)
           | Some cfs \<Rightarrow>
               if startsWith (path_basename filePath') ''_'' then (Returned, g, b)
               else (case compileSingle e filePath' (g, b) of
                       (newFile, g1, b1) \<Rightarrow>
                         if compilationError b1
                         then (Returned, g1\<lparr>errorDetectedThisCycle := True\<rparr>, b1)
                         else
                           let cfs1 = cfs @ [newFile];
                               b2 = b1\<lparr>compiledFiles := Some cfs1\<rparr>;
                               missingCommonImports =
                                 filter (\<lambda>i. i \<notin> set (importsList newFile)) ci
                           in if length missingCommonImports > 0 then buildAll e True (g1, b2)
                              else bundleSingle_at e newFile (length cfs) cfs1 ci (g1, b2))))"

text \<open>
  \<^verbatim>\<open>onFileRemove\<close>. Its last call of \<^verbatim>\<open>buildAll(true)\<close> is not awaited: the handler
  returns once the build has reached its first \<^verbatim>\<open>await\<close>, and the rest of the build is
  left in flight. A build that ended or threw before that point leaves nothing in flight.
\<close>

fun onFileRemove :: "env \<Rightarrow> string \<Rightarrow> proc \<times> Bundler \<Rightarrow> outcome \<times> proc \<times> Bundler" where
  "onFileRemove e filePath' (g, b) =
     (case commonImports b of
        None \<Rightarrow> (Returned, g\<lparr>stderr := stderr g @ [warnNotPersisted ''add'']\<rparr>, b)
      | Some ci \<Rightarrow>
          (case compiledFiles b of
             None \<Rightarrow> (Returned, g\<lparr>stderr := stderr g @ [warnNotPersisted ''add'']\<rparr>, b)
           | Some cfs \<Rightarrow>
               if startsWith (path_basename filePath') ''_''
               then
                 (let imports = set (concat (map importsList cfs));
                      importPath = path_resolve filePath'
                  in if importPath \<in> imports
                     then (if importPath \<in> set ci
                           then (Returned,
                                 g\<lparr>stderr := stderr g @ [errSharedRemoved],
                                   errorDetectedThisCycle := True\<rparr>,
                                 b\<lparr>commonImports := Some (remove1 importPath ci),
                                   compilationError := True\<rparr>)
                           else
                             let affectedFiles =
                                   filter (\<lambda>f. importPath \<in> set (importsList f)) cfs
                             in (Returned,
                                 g\<lparr>stderr := stderr g @ [errMsg @ newline @ usedFilesMsg affectedFiles],
                                   errorDetectedThisCycle := True\<rparr>,
                                 b\<lparr>compilationError := True\<rparr>))
                     else (Returned, g, b))
               else
                 (case findIndex (\<lambda>f. filePath f = filePath') cfs of
                    None \<Rightarrow> (Threw TypeError, g, b)
                  | Some deletedFileIndex \<Rightarrow>
                      (case writeStream (cfs ! deletedFileIndex) of
                         None \<Rightarrow> (Threw TypeError, g, b)
                       | Some ws \<Rightarrow>
                           (case disk g (wpath ws) of
                              None \<Rightarrow> (Threw FsError, g, b)
                            | Some content \<Rightarrow>
                                let g1 = g\<lparr>disk := (disk g)(wpath ws := None)\<rparr>;
                                    cfs1 = take deletedFileIndex cfs @ drop (Suc deletedFileIndex) cfs;
                                    b1 = b\<lparr>compiledFiles := Some cfs1\<rparr>
                                in (case identifyCommonImports cfs1 of
                                      Inl x \<Rightarrow> (Threw x, g1, b1)
                                    | Inr newCommonImports \<Rightarrow>
                                        if \<not> equalsIgnoreOrder newCommonImports ci
                                        then (case buildAll_start e (g1, b1) of
                                                Inl (out, s') \<Rightarrow> (Returned, s')
                                              | Inr (files, ci', g2, b2) \<Rightarrow>
                                                  (Returned,
                                                   g2\<lparr>inflight :=
                                                        inflight g2 @ [PendingBuild True files ci']\<rparr>,
                                                   b2))
                                        else (Returned, g1, b1)))))))"

text \<open>A build in flight, run to its end.\<close>

fun resume :: "env \<Rightarrow> pending \<Rightarrow> proc \<times> Bundler \<Rightarrow> outcome \<times> proc \<times> Bundler" where
  "resume e (PendingBuild persist files ci) s = buildAll_rest e persist files ci s"

text \<open>
  The four listeners that \<^verbatim>\<open>onChokidarReady\<close> registers, after its own
  \<^verbatim>\<open>buildAll(true)\<close>.
\<close>

fun on_all :: "env \<Rightarrow> proc \<times> Bundler \<Rightarrow> outcome \<times> proc \<times> Bundler" where
  "on_all e (g, b) =
     (if \<not> compilationError b then (Returned, g, b)
      else if errorDetectedThisCycle g
        then (Returned, g\<lparr>errorDetectedThisCycle := False\<rparr>, b)
        else buildAll e True (g, b\<lparr>compilationError := False\<rparr>))"

fun on_change :: "env \<Rightarrow> string \<Rightarrow> proc \<times> Bundler \<Rightarrow> outcome \<times> proc \<times> Bundler" where
  "on_change e filePath' (g, b) =
     (if compilationError b then (Returned, g, b) else onFileChange e filePath' (g, b))"

fun on_add :: "env \<Rightarrow> string \<Rightarrow> proc \<times> Bundler \<Rightarrow> outcome \<times> proc \<times> Bundler" where
  "on_add e filePath' (g, b) =
     (if compilationError b then (Returned, g, b) else onFileAdd e filePath' (g, b))"

fun on_unlink :: "env \<Rightarrow> string \<Rightarrow> proc \<times> Bundler \<Rightarrow> outcome \<times> proc \<times> Bundler" where
  "on_unlink e filePath' (g, b) =
     (if compilationError b then (Returned, g, b) else onFileRemove e filePath' (g, b))"

subsection \<open>Notions used in the statements\<close>

text \<open>The names in a directory that \<open>compileDir\<close> compiles: those that do not start with \<^verbatim>\<open>_\<close>.\<close>

definition entryNames :: "env \<Rightarrow> string \<Rightarrow> string list" where
  "entryNames e dirPath = filter (\<lambda>file. \<not> startsWith file ''_'') (readdirSync e dirPath)"

definition compiles :: "env \<Rightarrow> string \<Rightarrow> bool" where
  "compiles e f = (case snd (renderWithImporter e f) of Css css \<Rightarrow> True | Failed m \<Rightarrow> False)"

definition rendersPlain :: "env \<Rightarrow> string \<Rightarrow> bool" where
  "rendersPlain e f = (case renderPlain e f of Css css \<Rightarrow> True | Failed m \<Rightarrow> False)"

text \<open>The compiled text of an entry, and of an import compiled on its own.\<close>

definition ownCss :: "env \<Rightarrow> string \<Rightarrow> string" where
  "ownCss e f = (case snd (renderWithImporter e f) of Css css \<Rightarrow> css | Failed m \<Rightarrow> [])"

definition plainCss :: "env \<Rightarrow> string \<Rightarrow> string" where
  "plainCss e f = (case renderPlain e f of Css css \<Rightarrow> css | Failed m \<Rightarrow> [])"

text \<open>The record that \<open>compileSingle\<close> returns for a file; it depends on the configuration only.\<close>

definition compiledOf :: "env \<Rightarrow> Config \<Rightarrow> string \<Rightarrow> CompiledFile" where
  "compiledOf e cfg f =
     (case renderWithImporter e f of
        (urls, Failed m) \<Rightarrow>
          \<lparr>importsList = sassImporter cfg urls, filePath = f, readStream = None,
           writeStream = None, error = True\<rparr>
      | (urls, Css css) \<Rightarrow>
          \<lparr>importsList = sassImporter cfg urls, filePath = f, readStream = Some css,
           writeStream = Some \<lparr>wpath = absoluteCssPath cfg f, ended = False\<rparr>, error = False\<rparr>)"

section \<open>Example inputs\<close>

text \<open>Concrete configurations, artifacts and source trees on which the theorems are run.\<close>

text \<open>An artifact with the given imports, text, output path and stream state.\<close>

definition mkFile :: "string \<Rightarrow> string list \<Rightarrow> string \<Rightarrow> string \<Rightarrow> bool \<Rightarrow> CompiledFile" where
  "mkFile p is css out e =
     \<lparr>importsList = is, filePath = p, readStream = Some css,
      writeStream = Some \<lparr>wpath = out, ended = e\<rparr>, error = False\<rparr>"

definition file_a :: CompiledFile where
  "file_a = mkFile ''/src/a.scss'' [''/src/_p.scss'', ''/src/_q.scss''] ''A'' ''/out/a.css'' True"

definition file_b :: CompiledFile where
  "file_b = mkFile ''/src/b.scss'' [''/src/_p.scss'', ''/src/_r.scss''] ''B'' ''/out/b.css'' True"

definition cfg0 :: Config where
  "cfg0 = \<lparr>verbose = False, sassDir = ''/src'', outDir = ''/out'', sharedPath = ''/out/shared.css''\<rparr>"

text \<open>A source tree, given by what the compiler and the directory listing answer.\<close>

definition mkEnv ::
  "(string \<times> string list \<times> render_result) list \<Rightarrow> (string \<times> string) list \<Rightarrow>
   (string \<times> string list) list \<Rightarrow> env" where
  "mkEnv entries partials tree =
     \<lparr>renderWithImporter =
        (\<lambda>f. case map_of entries f of Some r \<Rightarrow> r | None \<Rightarrow> ([], Failed ''cannot read'')),
      renderPlain =
        (\<lambda>f. case map_of partials f of Some css \<Rightarrow> Css css | None \<Rightarrow> Failed ''cannot read''),
      listing = (\<lambda>d. case map_of tree d of Some names \<Rightarrow> names | None \<Rightarrow> [])\<rparr>"

definition partials0 :: "(string \<times> string) list" where
  "partials0 =
     [(''/src/_p.scss'', ''P''), (''/src/_q.scss'', ''Q''), (''/src/_r.scss'', ''R''),
      (''/src/_s.scss'', ''S''), (''/src/_t.scss'', ''T'')]"

definition names0 :: "string list" where
  "names0 = [''_p.scss'', ''_q.scss'', ''_r.scss'', ''_s.scss'', ''_t.scss'', ''a.scss'', ''b.scss'']"

text \<open>
  The tree with the entries \<^verbatim>\<open>a.scss\<close> and \<^verbatim>\<open>b.scss\<close>, where \<^verbatim>\<open>a.scss\<close> has the given
  import URLs and compiles to the given text, and \<^verbatim>\<open>b.scss\<close> imports \<^verbatim>\<open>_p\<close> and \<^verbatim>\<open>_r\<close>.
\<close>

definition env_a :: "string list \<Rightarrow> string \<Rightarrow> env" where
  "env_a urls css =
     mkEnv [(''/src/a.scss'', urls, Css css),
            (''/src/b.scss'', [''!bundler/_p.scss'', ''!bundler/_r.scss''], Css ''B'')]
       partials0 [(''/src'', names0)]"

definition env0 :: env where
  "env0 = env_a [''!bundler/_p.scss'', ''!bundler/_q.scss''] ''A''"

text \<open>The tree of \<open>env0\<close> with one more entry.\<close>

definition env_add :: "string \<Rightarrow> string list \<Rightarrow> string \<Rightarrow> env" where
  "env_add name urls css =
     mkEnv [(''/src/a.scss'', [''!bundler/_p.scss'', ''!bundler/_q.scss''], Css ''A''),
            (''/src/b.scss'', [''!bundler/_p.scss'', ''!bundler/_r.scss''], Css ''B''),
            (''/src/'' @ name, urls, Css css)]
       partials0 [(''/src'', names0 @ [name])]"

text \<open>The state of a fresh process with one new instance.\<close>

definition proc_init :: proc where
  "proc_init =
     \<lparr>errorDetectedThisCycle = False, disk = Map.empty, dirs = (\<lambda>d. False), stderr = [],
      inflight = []\<rparr>"

definition bundler_init :: Bundler where
  "bundler_init =
     \<lparr>config = cfg0, compiledFiles = None, commonImports = None, compilationError = False\<rparr>"

text \<open>
  A process in which an earlier run has left a file in the output directory, beside a file
  elsewhere.
\<close>

definition proc_stale :: proc where
  "proc_stale =
     \<lparr>errorDetectedThisCycle = False,
      disk = map_of [(''/out/old.css'', ''OLD''), (''/elsewhere.css'', ''E'')],
      dirs = (\<lambda>d. d = ''/out''), stderr = [], inflight = []\<rparr>"

text \<open>The state that \<open>buildAll env0 True\<close> leaves.\<close>

definition proc0 :: proc where
  "proc0 =
     \<lparr>errorDetectedThisCycle = False,
      disk = map_of [(''/out/a.css'', ''QA''), (''/out/b.css'', ''RB''), (''/out/shared.css'', ''P'')],
      dirs = (\<lambda>d. d = ''/out''), stderr = [], inflight = []\<rparr>"

definition bundler0 :: Bundler where
  "bundler0 =
     \<lparr>config = cfg0, compiledFiles = Some [file_a, file_b],
      commonImports = Some [''/src/_p.scss''], compilationError = False\<rparr>"

text \<open>
  What \<open>compileSingle\<close> returns for the entry \<^verbatim>\<open>/src/name.scss\<close> under \<open>cfg0\<close>, and the
  process after its output file was opened.
\<close>

definition new_file :: "string \<Rightarrow> string list \<Rightarrow> string \<Rightarrow> CompiledFile" where
  "new_file name urls css =
     \<lparr>importsList = sassImporter cfg0 urls, filePath = ''/src/'' @ name @ ''.scss'',
      readStream = Some css,
      writeStream = Some \<lparr>wpath = ''/out/'' @ name @ ''.css'', ended = False\<rparr>, error = False\<rparr>"

definition opened :: "string \<Rightarrow> proc \<Rightarrow> proc" where
  "opened name g = g\<lparr>disk := (disk g)(''/out/'' @ name @ ''.css'' \<mapsto> [])\<rparr>"

text \<open>Import lists for a changed \<^verbatim>\<open>a.scss\<close>.\<close>

definition urls1 :: "string list" where
  "urls1 = [''!bundler/_p.scss'', ''!bundler/_q.scss'', ''!bundler/_q.scss'']"

definition urls2 :: "string list" where
  "urls2 = [''!bundler/_q.scss'']"

definition urls3 :: "string list" where
  "urls3 = [''!bundler/_p.scss'', ''!bundler/_q.scss'', ''!bundler/_r.scss'']"

definition urls4 :: "string list" where
  "urls4 = [''!bundler/_p.scss'', ''!bundler/_q.scss'', ''!bundler/_s.scss'']"

definition urls5 :: "string list" where
  "urls5 = [''!bundler/_p.scss'', ''!bundler/_q.scss'', ''!bundler/_s.scss'', ''!bundler/_t.scss'']"

text \<open>
  A second tree, in which \<^verbatim>\<open>b.scss\<close> imports \<^verbatim>\<open>_p\<close> twice, and the state that a full
  build of it leaves when \<^verbatim>\<open>a.scss\<close> imports \<^verbatim>\<open>_p\<close> and \<^verbatim>\<open>_q\<close>.
\<close>

definition file_b2 :: CompiledFile where
  "file_b2 = mkFile ''/src/b.scss'' [''/src/_p.scss'', ''/src/_p.scss'', ''/src/_r.scss''] ''B''
     ''/out/b.css'' True"

definition env_dup :: "string list \<Rightarrow> string \<Rightarrow> env" where
  "env_dup urls css =
     mkEnv [(''/src/a.scss'', urls, Css css),
            (''/src/b.scss'', [''!bundler/_p.scss'', ''!bundler/_p.scss'', ''!bundler/_r.scss''],
             Css ''B'')]
       partials0 [(''/src'', names0)]"

definition proc_dup :: proc where
  "proc_dup =
     \<lparr>errorDetectedThisCycle = False,
      disk = map_of [(''/out/a.css'', ''QA''), (''/out/b.css'', ''PRB''), (''/out/shared.css'', ''P'')],
      dirs = (\<lambda>d. d = ''/out''), stderr = [], inflight = []\<rparr>"

definition bundler_dup :: Bundler where
  "bundler_dup =
     \<lparr>config = cfg0, compiledFiles = Some [file_a, file_b2],
      commonImports = Some [''/src/_p.scss''], compilationError = False\<rparr>"

text \<open>The tree of \<open>env0\<close> after the partial \<^verbatim>\<open>_p.scss\<close> was edited.\<close>

definition env_edit_p :: env where
  "env_edit_p =
     mkEnv [(''/src/a.scss'', [''!bundler/_p.scss'', ''!bundler/_q.scss''], Css ''A''),
            (''/src/b.scss'', [''!bundler/_p.scss'', ''!bundler/_r.scss''], Css ''B''),
            (''/src/_p.scss'', [], Css ''P2'')]
       ((''/src/_p.scss'', ''P2'') # partials0) [(''/src'', names0)]"

text \<open>The tree of \<open>env0\<close> after \<^verbatim>\<open>b.scss\<close> was removed.\<close>

definition env_rm_b :: env where
  "env_rm_b =
     mkEnv [(''/src/a.scss'', [''!bundler/_p.scss'', ''!bundler/_q.scss''], Css ''A'')]
       partials0
       [(''/src'', [''_p.scss'', ''_q.scss'', ''_r.scss'', ''_s.scss'', ''_t.scss'', ''a.scss''])]"

text \<open>
  A second instance, on another source directory, whose error flag is set; and a tree in
  which \<^verbatim>\<open>/src/a.scss\<close> does not compile while the second directory is in order.
\<close>

definition cfg2 :: Config where
  "cfg2 = \<lparr>verbose = False, sassDir = ''/src2'', outDir = ''/out2'',
            sharedPath = ''/out2/shared.css''\<rparr>"

definition bundler2 :: Bundler where
  "bundler2 =
     \<lparr>config = cfg2, compiledFiles = None, commonImports = None, compilationError = True\<rparr>"

definition env_two :: env where
  "env_two =
     mkEnv [(''/src/a.scss'', [], Failed ''syntax error''),
            (''/src/b.scss'', [''!bundler/_p.scss'', ''!bundler/_r.scss''], Css ''B''),
            (''/src2/x.scss'', [], Css ''X'')]
       partials0 [(''/src'', names0), (''/src2'', [''x.scss''])]"

text \<open>
  The trees of \<open>env_two\<close>, but with \<^verbatim>\<open>/src/a.scss\<close> in order and the common partial
  \<^verbatim>\<open>/src/_p.scss\<close> edited so that it no longer compiles.
\<close>

definition env_p_broken :: env where
  "env_p_broken =
     mkEnv [(''/src/a.scss'', [''!bundler/_p.scss'', ''!bundler/_q.scss''], Css ''A''),
            (''/src/b.scss'', [''!bundler/_p.scss'', ''!bundler/_r.scss''], Css ''B''),
            (''/src/_p.scss'', [], Failed ''syntax error''),
            (''/src2/x.scss'', [], Css ''X'')]
       [(''/src/_q.scss'', ''Q''), (''/src/_r.scss'', ''R'')]
       [(''/src'', names0), (''/src2'', [''x.scss''])]"

text \<open>The tree of \<open>env0\<close> with a \<^verbatim>\<open>b.scss\<close> that does not compile.\<close>

definition env_b_broken :: env where
  "env_b_broken =
     mkEnv [(''/src/a.scss'', [''!bundler/_p.scss'', ''!bundler/_q.scss''], Css ''A''),
            (''/src/b.scss'', [], Failed ''syntax error'')]
       partials0 [(''/src'', names0)]"

text \<open>
  A tree with an entry in a subdirectory. The compiler cannot read the subdirectory as a
  file.
\<close>

definition env_nested :: env where
  "env_nested =
     mkEnv [(''/src/a.scss'', [], Css ''A''), (''/src/sub/x.scss'', [], Css ''X'')]
       partials0 [(''/src'', [''a.scss'', ''sub'']), (''/src/sub'', [''x.scss''])]"

text \<open>
  The tree of \<open>env0\<close> after a subdirectory \<^verbatim>\<open>sub\<close> with the entry \<^verbatim>\<open>x.scss\<close> was made in
  the source directory.
\<close>

definition env_sub :: env where
  "env_sub =
     mkEnv [(''/src/a.scss'', [''!bundler/_p.scss'', ''!bundler/_q.scss''], Css ''A''),
            (''/src/b.scss'', [''!bundler/_p.scss'', ''!bundler/_r.scss''], Css ''B''),
            (''/src/sub/x.scss'', [], Css ''X'')]
       partials0 [(''/src'', names0 @ [''sub'']), (''/src/sub'', [''x.scss''])]"

section \<open>Auxiliary facts\<close>

lemma count_mset_filter: "count (mset xs) v = length (filter (\<lambda>e. e = v) xs)"
  by (induction xs) auto

lemma equalsIgnoreOrder_mset: "equalsIgnoreOrder a b \<longleftrightarrow> mset a = mset b"
proof
  assume eq: "equalsIgnoreOrder a b"
  then have cnt:
    "\<forall>v\<in>set a \<union> set b. length (filter (\<lambda>e. e = v) a) = length (filter (\<lambda>e. e = v) b)"
    by (auto simp: equalsIgnoreOrder_def list_all_iff split: if_splits)
  show "mset a = mset b"
  proof (rule multiset_eqI)
    fix x
    show "count (mset a) x = count (mset b) x"
    proof (cases "x \<in> set a \<union> set b")
      case True
      with cnt have "length (filter (\<lambda>e. e = x) a) = length (filter (\<lambda>e. e = x) b)" by blast
      then show ?thesis by (simp add: count_mset_filter)
    next
      case False
      then have "count (mset a) x = 0" "count (mset b) x = 0"
        by (auto simp: count_mset_filter filter_empty_conv)
      then show ?thesis by metis
    qed
  qed
next
  assume m: "mset a = mset b"
  then have "length a = length b" by (metis size_mset)
  moreover have "\<And>v. length (filter (\<lambda>e. e = v) a) = length (filter (\<lambda>e. e = v) b)"
  proof -
    fix v
    from m have "count (mset a) v = count (mset b) v" by simp
    then show "length (filter (\<lambda>e. e = v) a) = length (filter (\<lambda>e. e = v) b)"
      by (simp add: count_mset_filter)
  qed
  ultimately show "equalsIgnoreOrder a b"
    by (simp add: equalsIgnoreOrder_def list_all_iff)
qed

lemma identifyCommonImports_set:
  assumes "files \<noteq> []"
  shows "\<exists>r. identifyCommonImports files = Inr r \<and>
             set r = (\<Inter>f\<in>set files. set (importsList f))"
proof -
  let ?s = "sort_key (\<lambda>f. length (importsList f)) files"
  from assms have "?s \<noteq> []"
    by (metis length_sort length_0_conv)
  then obtain f0 rest where s: "?s = f0 # rest"
    by (cases ?s) auto
  have "f0 \<in> set ?s" using s by simp
  then have f0: "f0 \<in> set files" by simp
  have r: "identifyCommonImports files =
           Inr (filter (\<lambda>i. isCommonImport i files) (importsList f0))"
    by (simp add: identifyCommonImports_def s)
  have "set (filter (\<lambda>i. isCommonImport i files) (importsList f0)) =
        (\<Inter>f\<in>set files. set (importsList f))"
    using f0 by (auto simp: isCommonImport_def list_all_iff)
  with r show ?thesis by simp
qed

declare onFileChange.simps [simp del] onFileAdd.simps [simp del] onFileRemove.simps [simp del]
  onFileChange_rest.simps [simp del] compileSingle.simps [simp del]
  buildAll_start.simps [simp del] buildAll_rest.simps [simp del] writeCommon.simps [simp del]
  bundleSingle_at.simps [simp del]
  on_all.simps [simp del] on_change.simps [simp del] on_add.simps [simp del]
  on_unlink.simps [simp del]

lemma compileSingle_Css:
  assumes "renderWithImporter e p = (urls, Css css)"
  shows "compileSingle e p (g, b) =
           (\<lparr>importsList = sassImporter (config b) urls, filePath = p, readStream = Some css,
             writeStream = Some \<lparr>wpath = absoluteCssPath (config b) p, ended = False\<rparr>,
             error = False\<rparr>,
            openFile (absoluteCssPath (config b) p) g, b)"
  using assms by (simp add: compileSingle.simps createWriteStream_def)

lemma openFile_other: "q \<noteq> p \<Longrightarrow> disk (openFile p g) q = disk g q"
  by (simp add: openFile_def)

lemma openFile_at:
  "disk (openFile p g) p = (if dirExists g (path_dirname p) then Some [] else disk g p)"
  by (simp add: openFile_def)

lemma openFile_fields [simp]:
  "stderr (openFile p g) = stderr g"
  "errorDetectedThisCycle (openFile p g) = errorDetectedThisCycle g"
  "inflight (openFile p g) = inflight g"
  "dirs (openFile p g) = dirs g"
  by (simp_all add: openFile_def)

lemma dirExists_openFile [simp]: "dirExists (openFile p g) d = dirExists g d"
  by (simp add: dirExists_def)

lemma compileSingle_Failed:
  assumes "renderWithImporter e p = (urls, Failed m)"
  shows "compileSingle e p (g, b) =
           (\<lparr>importsList = sassImporter (config b) urls, filePath = p, readStream = None,
             writeStream = None, error = True\<rparr>,
            g\<lparr>stderr := stderr g @ [m]\<rparr>, b\<lparr>compilationError := True\<rparr>)"
  using assms by (simp add: compileSingle.simps)

lemma pipeInto_other: "q \<noteq> wpath w \<Longrightarrow> disk (pipeInto d w g) q = disk g q"
  by (simp add: pipeInto_def split: option.splits)

lemma pipeInto_fields [simp]:
  "stderr (pipeInto d w g) = stderr g"
  "errorDetectedThisCycle (pipeInto d w g) = errorDetectedThisCycle g"
  "inflight (pipeInto d w g) = inflight g"
  "dirs (pipeInto d w g) = dirs g"
  by (simp_all add: pipeInto_def split: option.splits)

lemma bundle_imports_other:
  "bundle_imports e is ws g = (out, g') \<Longrightarrow> (\<And>w. ws = Some w \<Longrightarrow> q \<noteq> wpath w) \<Longrightarrow>
   disk g' q = disk g q"
proof (induction "is" arbitrary: g)
  case Nil
  then show ?case by simp
next
  case (Cons i "is")
  then show ?case
    by (auto split: render_result.splits option.splits if_splits simp: pipeInto_other)
qed

lemma bundleSingle_other:
  assumes "bundleSingle e f ci g = (out, f', g')" and "\<And>w. writeStream f = Some w \<Longrightarrow> q \<noteq> wpath w"
  shows "disk g' q = disk g q"
proof -
  obtain o1 g1 where bi: "bundle_imports e (removeA (importsList f) ci) (writeStream f) g = (o1, g1)"
    by (cases "bundle_imports e (removeA (importsList f) ci) (writeStream f) g")
  from bundle_imports_other [OF bi] assms(2) have d1: "disk g1 q = disk g q" by blast
  from assms(1) bi have "disk g' q = disk g1 q"
    by (auto simp: bundleSingle_def Let_def pipeInto_other assms(2)
        split: if_splits option.splits)
  with d1 show ?thesis by simp
qed

lemma findIndex_Some_less: "findIndex P xs = Some i \<Longrightarrow> i < length xs"
  by (induction xs arbitrary: i) (auto split: if_splits)


lemma equalsIgnoreOrder_set: "equalsIgnoreOrder a b \<Longrightarrow> set a = set b"
  by (metis equalsIgnoreOrder_mset set_mset_mset)

lemma removed_common_empty:
  "filter (\<lambda>i. i \<in> set ci) (filter (\<lambda>i. i \<notin> set new) old) = [] \<longleftrightarrow>
   (set old - set new) \<inter> set ci = {}"
  by (auto simp: filter_empty_conv)

lemma added_empty: "filter (\<lambda>i. i \<notin> set old) new = [] \<longleftrightarrow> set new - set old = {}"
  by (auto simp: filter_empty_conv)

lemma bundle_imports_fields:
  "bundle_imports e is ws g = (out, g') \<Longrightarrow>
   stderr g' = stderr g \<and> errorDetectedThisCycle g' = errorDetectedThisCycle g \<and>
   inflight g' = inflight g"
proof (induction "is" arbitrary: g)
  case Nil
  then show ?case by simp
next
  case (Cons i "is")
  then show ?case
    by (fastforce split: render_result.splits option.splits if_splits)
qed

lemma bundleSingle_fields:
  assumes "bundleSingle e f ci g = (out, f', g')"
  shows "stderr g' = stderr g \<and> errorDetectedThisCycle g' = errorDetectedThisCycle g \<and>
         inflight g' = inflight g \<and> importsList f' = importsList f \<and> filePath f' = filePath f \<and>
         readStream f' = readStream f \<and> error f' = error f"
proof -
  obtain o1 g1 where bi: "bundle_imports e (removeA (importsList f) ci) (writeStream f) g = (o1, g1)"
    by (cases "bundle_imports e (removeA (importsList f) ci) (writeStream f) g")
  note bundle_imports_fields [OF bi]
  with assms bi show ?thesis
    by (auto simp: bundleSingle_def Let_def split: if_splits option.splits)
qed

lemma bundleSingle_at_frame:
  assumes "bundleSingle_at e f i cfs ci (g, b) = (out, g2, b3)"
    and "writeStream f = Some w"
  shows "commonImports b3 = commonImports b \<and> compilationError b3 = compilationError b \<and>
         config b3 = config b \<and>
         (\<exists>f'. compiledFiles b3 = Some (cfs[i := f']) \<and> importsList f' = importsList f \<and>
               filePath f' = filePath f) \<and>
         (\<forall>q. q \<noteq> wpath w \<longrightarrow> disk g2 q = disk g q) \<and>
         stderr g2 = stderr g \<and> errorDetectedThisCycle g2 = errorDetectedThisCycle g"
proof -
  obtain out' f' g' where bs: "bundleSingle e f ci g = (out', f', g')"
    by (cases "bundleSingle e f ci g")
  with assms(1) have eq: "out = out'" "g2 = g'" "b3 = b\<lparr>compiledFiles := Some (cfs[i := f'])\<rparr>"
    by (simp_all add: bundleSingle_at.simps)
  have other: "\<forall>q. q \<noteq> wpath w \<longrightarrow> disk g' q = disk g q"
    using bundleSingle_other [OF bs] assms(2) by simp
  from bundleSingle_fields [OF bs] other eq show ?thesis by auto
qed

lemma foldl_append_concat:
  "foldl (\<lambda>acc cur. acc @ h cur) init xs = init @ concat (map h xs)"
  by (induction xs arbitrary: init) simp_all

lemma usedFilesMsg_concat:
  "usedFilesMsg fs = '' - '' @ concat (map (\<lambda>f. newline @ '' - '' @ filePath f) fs)"
proof -
  have "usedFilesMsg fs =
        foldl (\<lambda>acc cur. acc @ (newline @ '' - '' @ cur)) '' - '' (map filePath fs)"
    by (simp add: usedFilesMsg_def)
  also have "\<dots> = '' - '' @ concat (map (\<lambda>cur. newline @ '' - '' @ cur) (map filePath fs))"
    by (rule foldl_append_concat)
  finally show ?thesis by (simp add: comp_def)
qed

lemma sublist_concat_map:
  assumes "x \<in> set xs"
  shows "sublist (h x) (pre @ concat (map h xs))"
proof -
  from assms obtain as bs where "xs = as @ x # bs" by (auto dest: split_list)
  then have "pre @ concat (map h xs) = (pre @ concat (map h as)) @ h x @ concat (map h bs)"
    by simp
  then show ?thesis unfolding sublist_def by blast
qed

lemma usedFilesMsg_lists:
  assumes "f \<in> set fs"
  shows "sublist (newline @ '' - '' @ filePath f) (errMsg @ newline @ usedFilesMsg fs)"
proof -
  have "errMsg @ newline @ usedFilesMsg fs =
        (errMsg @ newline @ '' - '') @ concat (map (\<lambda>f. newline @ '' - '' @ filePath f) fs)"
    by (simp add: usedFilesMsg_concat)
  then show ?thesis using sublist_concat_map [OF assms] by metis
qed

lemma compileSingle_compiledOf:
  "\<exists>g' b'. compileSingle e f (g, b) = (compiledOf e (config b) f, g', b') \<and>
     config b' = config b \<and> compiledFiles b' = compiledFiles b \<and>
     commonImports b' = commonImports b \<and>
     compilationError b' = (compilationError b \<or> \<not> compiles e f) \<and>
     disk g' =
       (if compiles e f \<and> dirExists g (path_dirname (absoluteCssPath (config b) f))
        then (disk g)(absoluteCssPath (config b) f \<mapsto> []) else disk g) \<and>
     dirs g' = dirs g \<and>
     errorDetectedThisCycle g' = errorDetectedThisCycle g \<and> inflight g' = inflight g"
  by (cases "renderWithImporter e f"; cases "snd (renderWithImporter e f)")
    (auto simp: compileSingle.simps compiledOf_def compiles_def createWriteStream_def
      openFile_def)

lemma compileDir_loop_result:
  "\<exists>g' b'. compileDir_loop e d names out (g, b) =
       (out @ map (\<lambda>f. compiledOf e (config b) (path_join d f))
                (filter (\<lambda>file. \<not> startsWith file ''_'') names), g', b') \<and>
     config b' = config b \<and> compiledFiles b' = compiledFiles b \<and>
     commonImports b' = commonImports b \<and>
     compilationError b' =
       (compilationError b \<or>
        (\<exists>f\<in>set names. \<not> startsWith f ''_'' \<and> \<not> compiles e (path_join d f))) \<and>
     (\<forall>p. disk g' p =
        (if \<exists>f\<in>set names. \<not> startsWith f ''_'' \<and> compiles e (path_join d f) \<and>
               p = absoluteCssPath (config b) (path_join d f) \<and>
               dirExists g (path_dirname p)
         then Some [] else disk g p)) \<and>
     dirs g' = dirs g \<and>
     errorDetectedThisCycle g' = errorDetectedThisCycle g \<and> inflight g' = inflight g"
proof (induction names arbitrary: out g b)
  case Nil
  then show ?case by simp
next
  case (Cons nm rest)
  show ?case
  proof (cases "startsWith nm ''_''")
    case True
    with Cons.IH [of out g b] show ?thesis by auto
  next
    case False
    obtain g1 b1 where cs:
      "compileSingle e (path_join d nm) (g, b) = (compiledOf e (config b) (path_join d nm), g1, b1)"
      "config b1 = config b" "compiledFiles b1 = compiledFiles b" "commonImports b1 = commonImports b"
      "compilationError b1 = (compilationError b \<or> \<not> compiles e (path_join d nm))"
      "disk g1 =
         (if compiles e (path_join d nm) \<and>
             dirExists g (path_dirname (absoluteCssPath (config b) (path_join d nm)))
          then (disk g)(absoluteCssPath (config b) (path_join d nm) \<mapsto> []) else disk g)"
      "dirs g1 = dirs g"
      "errorDetectedThisCycle g1 = errorDetectedThisCycle g" "inflight g1 = inflight g"
      using compileSingle_compiledOf [of e "path_join d nm" g b] by blast
    from cs(7) have de: "dirExists g1 = dirExists g"
      by (simp add: dirExists_def fun_eq_iff)
    from Cons.IH [of "out @ [compiledOf e (config b) (path_join d nm)]" g1 b1]
    obtain g' b' where ih:
      "compileDir_loop e d rest (out @ [compiledOf e (config b) (path_join d nm)]) (g1, b1) =
         ((out @ [compiledOf e (config b) (path_join d nm)]) @
            map (\<lambda>f. compiledOf e (config b1) (path_join d f))
              (filter (\<lambda>file. \<not> startsWith file ''_'') rest), g', b')"
      "config b' = config b1" "compiledFiles b' = compiledFiles b1"
      "commonImports b' = commonImports b1"
      "compilationError b' =
         (compilationError b1 \<or>
          (\<exists>f\<in>set rest. \<not> startsWith f ''_'' \<and> \<not> compiles e (path_join d f)))"
      "\<forall>p. disk g' p =
        (if \<exists>f\<in>set rest. \<not> startsWith f ''_'' \<and> compiles e (path_join d f) \<and>
               p = absoluteCssPath (config b1) (path_join d f) \<and>
               dirExists g1 (path_dirname p)
         then Some [] else disk g1 p)"
      "dirs g' = dirs g1"
      "errorDetectedThisCycle g' = errorDetectedThisCycle g1" "inflight g' = inflight g1"
      by blast
    have run: "compileDir_loop e d (nm # rest) out (g, b) =
       (out @ map (\<lambda>f. compiledOf e (config b) (path_join d f))
                (filter (\<lambda>file. \<not> startsWith file ''_'') (nm # rest)), g', b')"
      using False cs(1,2) ih(1) by simp
    have err: "compilationError b' =
       (compilationError b \<or>
        (\<exists>f\<in>set (nm # rest). \<not> startsWith f ''_'' \<and> \<not> compiles e (path_join d f)))"
      using False cs(5) ih(5) by auto
    have dsk: "\<forall>p. disk g' p =
        (if \<exists>f\<in>set (nm # rest). \<not> startsWith f ''_'' \<and> compiles e (path_join d f) \<and>
               p = absoluteCssPath (config b) (path_join d f) \<and>
               dirExists g (path_dirname p)
         then Some [] else disk g p)"
      using False cs(2,6) ih(6) de by auto
    from run err dsk cs ih show ?thesis by simp
  qed
qed

lemma pipeInto_at: "disk g (wpath w) = Some c \<Longrightarrow> disk (pipeInto d w g) (wpath w) = Some (c @ d)"
  by (simp add: pipeInto_def)

lemma bundle_imports_content:
  assumes "\<forall>i\<in>set is. rendersPlain e i" and "\<not> ended w" and "disk g (wpath w) = Some c"
  shows "\<exists>g'. bundle_imports e is (Some w) g = (Returned, g') \<and>
           disk g' (wpath w) = Some (c @ concat (map (plainCss e) is)) \<and>
           (\<forall>q. q \<noteq> wpath w \<longrightarrow> disk g' q = disk g q) \<and> dirs g' = dirs g"
  using assms(1,3)
proof (induction "is" arbitrary: g c)
  case Nil
  then show ?case by simp
next
  case (Cons i "is")
  from Cons.prems obtain css where css: "renderPlain e i = Css css"
    by (auto simp: rendersPlain_def split: render_result.splits)
  then have pc: "plainCss e i = css" by (simp add: plainCss_def)
  from Cons.prems have r: "\<forall>i\<in>set is. rendersPlain e i" by simp
  from Cons.prems have d: "disk (pipeInto css w g) (wpath w) = Some (c @ css)"
    by (simp add: pipeInto_at)
  from Cons.IH [OF r d]
  obtain g' where "bundle_imports e is (Some w) (pipeInto css w g) = (Returned, g')"
    and "disk g' (wpath w) = Some ((c @ css) @ concat (map (plainCss e) is))"
    and "\<forall>q. q \<noteq> wpath w \<longrightarrow> disk g' q = disk (pipeInto css w g) q"
    and "dirs g' = dirs (pipeInto css w g)"
    by blast
  with css pc assms(2) show ?case by (simp add: pipeInto_other)
qed

lemma set_removeA: "set (removeA xs ys) \<subseteq> set xs"
proof -
  have "set (foldl (\<lambda>acc a. remove1 a acc) xs ys) \<subseteq> set xs"
  proof (induction ys arbitrary: xs)
    case Nil
    then show ?case by simp
  next
    case (Cons y ys)
    have "set (foldl (\<lambda>acc a. remove1 a acc) (remove1 y xs) ys) \<subseteq> set (remove1 y xs)"
      by (rule Cons.IH)
    also have "\<dots> \<subseteq> set xs" by (rule set_remove1_subset)
    finally show ?case by simp
  qed
  then show ?thesis by (simp add: removeA_def)
qed

lemma bundleSingle_content:
  assumes "readStream f = Some css" and "writeStream f = Some w" and "\<not> ended w"
    and "\<forall>i\<in>set (importsList f). rendersPlain e i"
    and "disk g (wpath w) = Some c"
  shows "\<exists>f' g'. bundleSingle e f ci g = (Returned, f', g') \<and> filePath f' = filePath f \<and>
           disk g' (wpath w) =
             Some (c @ concat (map (plainCss e) (removeA (importsList f) ci)) @ css) \<and>
           (\<forall>q. q \<noteq> wpath w \<longrightarrow> disk g' q = disk g q) \<and> dirs g' = dirs g"
proof -
  from assms(4) set_removeA [of "importsList f" ci]
  have "\<forall>i\<in>set (removeA (importsList f) ci). rendersPlain e i" by blast
  from bundle_imports_content [OF this assms(3,5)]
  obtain g1 where "bundle_imports e (removeA (importsList f) ci) (Some w) g = (Returned, g1)"
    and "disk g1 (wpath w) = Some (c @ concat (map (plainCss e) (removeA (importsList f) ci)))"
    and "\<forall>q. q \<noteq> wpath w \<longrightarrow> disk g1 q = disk g q" and "dirs g1 = dirs g"
    by blast
  with assms(1-3) show ?thesis
    by (simp add: bundleSingle_def Let_def pipeInto_at pipeInto_other)
qed

lemma bundle_files_content:
  assumes "\<forall>f\<in>set files. (\<exists>css. readStream f = Some css) \<and>
             (\<exists>w. writeStream f = Some w \<and> \<not> ended w \<and> disk g (wpath w) = Some []) \<and>
             (\<forall>i\<in>set (importsList f). rendersPlain e i)"
    and "distinct (map (\<lambda>f. map_option wpath (writeStream f)) files)"
  shows "\<exists>files' g'. bundle_files e files ci g = (Returned, files', g') \<and>
           map filePath files' = map filePath files \<and>
           (\<forall>f\<in>set files. \<forall>w css. writeStream f = Some w \<longrightarrow> readStream f = Some css \<longrightarrow>
              disk g' (wpath w) =
                Some (concat (map (plainCss e) (removeA (importsList f) ci)) @ css)) \<and>
           (\<forall>q. (\<forall>f\<in>set files. \<forall>w. writeStream f = Some w \<longrightarrow> q \<noteq> wpath w) \<longrightarrow>
              disk g' q = disk g q) \<and>
           dirs g' = dirs g"
  using assms
proof (induction files arbitrary: g)
  case Nil
  then show ?case by simp
next
  case (Cons f files)
  from Cons.prems(1) obtain css w where f: "readStream f = Some css" "writeStream f = Some w"
    "\<not> ended w" "\<forall>i\<in>set (importsList f). rendersPlain e i" "disk g (wpath w) = Some []"
    by auto
  from bundleSingle_content [OF f, of ci]
  obtain f' g1 where b1: "bundleSingle e f ci g = (Returned, f', g1)" "filePath f' = filePath f"
    "disk g1 (wpath w) = Some (concat (map (plainCss e) (removeA (importsList f) ci)) @ css)"
    "\<forall>q. q \<noteq> wpath w \<longrightarrow> disk g1 q = disk g q" "dirs g1 = dirs g"
    by auto
  from Cons.prems(2) f(2) have fresh: "\<forall>f2\<in>set files. \<forall>w2. writeStream f2 = Some w2 \<longrightarrow> wpath w2 \<noteq> wpath w"
    by force
  with Cons.prems(1) b1(4) have p1: "\<forall>f\<in>set files. (\<exists>css. readStream f = Some css) \<and>
             (\<exists>w. writeStream f = Some w \<and> \<not> ended w \<and> disk g1 (wpath w) = Some []) \<and>
             (\<forall>i\<in>set (importsList f). rendersPlain e i)"
    by fastforce
  from Cons.prems(2) have p2: "distinct (map (\<lambda>f. map_option wpath (writeStream f)) files)"
    by simp
  from Cons.IH [OF p1 p2]
  obtain files' g2 where b2: "bundle_files e files ci g1 = (Returned, files', g2)"
    "map filePath files' = map filePath files"
    "\<forall>f\<in>set files. \<forall>w css. writeStream f = Some w \<longrightarrow> readStream f = Some css \<longrightarrow>
              disk g2 (wpath w) =
                Some (concat (map (plainCss e) (removeA (importsList f) ci)) @ css)"
    "\<forall>q. (\<forall>f\<in>set files. \<forall>w. writeStream f = Some w \<longrightarrow> q \<noteq> wpath w) \<longrightarrow>
              disk g2 q = disk g1 q"
    "dirs g2 = dirs g1"
    by blast
  have run: "bundle_files e (f # files) ci g = (Returned, f' # files', g2)"
    using b1(1) b2(1) by simp
  have here: "disk g2 (wpath w) = Some (concat (map (plainCss e) (removeA (importsList f) ci)) @ css)"
    using b2(4) fresh b1(3) by metis
  have other: "\<forall>q. (\<forall>f\<in>set (f # files). \<forall>w. writeStream f = Some w \<longrightarrow> q \<noteq> wpath w) \<longrightarrow>
              disk g2 q = disk g q"
    using b2(4) b1(4) f(2) by simp
  from run b1(2) b2(2,3,5) b1(5) here other f(1,2) show ?case by simp
qed

lemma writeCommon_loop_content:
  assumes "\<forall>i\<in>set ci. rendersPlain e i"
  shows "\<exists>g'. writeCommon_loop e ci w (g, b) = (g', b) \<and>
           (\<forall>c. disk g (wpath w) = Some c \<longrightarrow>
              disk g' (wpath w) = Some (c @ concat (map (plainCss e) ci))) \<and>
           (\<forall>q. q \<noteq> wpath w \<longrightarrow> disk g' q = disk g q)"
  using assms
proof (induction ci arbitrary: g)
  case Nil
  then show ?case by simp
next
  case (Cons i ci)
  from Cons.prems obtain css where css: "renderPlain e i = Css css"
    by (auto simp: rendersPlain_def split: render_result.splits)
  then have pc: "plainCss e i = css" by (simp add: plainCss_def)
  from Cons.prems have "\<forall>i\<in>set ci. rendersPlain e i" by simp
  from Cons.IH [OF this, of "pipeInto css w g"] css pc show ?case
    by (auto simp: pipeInto_other pipeInto_at)
qed

lemma writeCommon_content:
  assumes "\<forall>i\<in>set ci. rendersPlain e i"
  shows "\<exists>g'. writeCommon e ci (g, b) = (g', b) \<and>
           (dirExists g (path_dirname (sharedPath (config b))) \<longrightarrow>
              disk g' (sharedPath (config b)) = Some (concat (map (plainCss e) ci))) \<and>
           (\<forall>q. q \<noteq> sharedPath (config b) \<longrightarrow> disk g' q = disk g q)"
proof -
  let ?w = "\<lparr>wpath = sharedPath (config b), ended = False\<rparr>"
  let ?g1 = "openFile (sharedPath (config b)) g"
  from writeCommon_loop_content [OF assms, of ?w ?g1 b]
  obtain g' where "writeCommon_loop e ci ?w (?g1, b) = (g', b)"
    and "\<forall>c. disk ?g1 (wpath ?w) = Some c \<longrightarrow>
              disk g' (wpath ?w) = Some (c @ concat (map (plainCss e) ci))"
    and "\<forall>q. q \<noteq> wpath ?w \<longrightarrow> disk g' q = disk ?g1 q"
    by blast
  then show ?thesis
    by (auto simp: writeCommon.simps createWriteStream_def openFile_other openFile_def)
qed

lemma replace_first_prefix: "replace_first pat rep (pat @ rest) = rep @ rest"
proof (cases "pat @ rest")
  case Nil
  then show ?thesis by simp
next
  case (Cons c cs)
  have "prefix pat (pat @ rest)" by simp
  moreover have "drop (length pat) (pat @ rest) = rest" by simp
  ultimately show ?thesis using Cons by (metis replace_first.simps(2))
qed

lemma replace_ext_slash: "replace_ext (CHR ''/'' # f) = CHR ''/'' # replace_ext f"
proof -
  have s1: "suffix ''.scss'' (CHR ''/'' # f) \<longleftrightarrow> suffix ''.scss'' f"
    and s2: "suffix ''.sass'' (CHR ''/'' # f) \<longleftrightarrow> suffix ''.sass'' f"
    by (simp_all add: suffix_Cons)
  have len: "5 \<le> length f" if "suffix ''.scss'' f \<or> suffix ''.sass'' f"
    using that by (auto dest: suffix_length_le)
  show ?thesis
  proof (cases "suffix ''.scss'' f \<or> suffix ''.sass'' f")
    case True
    from len [OF True] have "Suc (length f) - 5 = Suc (length f - 5)" by simp
    with True s1 s2 show ?thesis by (simp add: replace_ext_def)
  next
    case False
    with s1 s2 show ?thesis by (simp add: replace_ext_def)
  qed
qed

lemma absoluteCssPath_entry:
  assumes "\<not> prefix ''/'' f"
  shows "absoluteCssPath cfg (path_join (sassDir cfg) f) = outDir cfg @ ''/'' @ replace_ext f"
proof -
  from assms have "path_join (sassDir cfg) f = sassDir cfg @ (''/'' @ f)"
    by (simp add: path_join_def)
  then have "relativePath (path_join (sassDir cfg) f) (sassDir cfg) = ''/'' @ f"
    by (simp only: relativePath_def path_resolve_def replace_first_prefix) simp
  then show ?thesis
    by (simp add: absoluteCssPath_def replace_ext_slash path_join_def)
qed

lemma replace_ext_no_slash: "CHR ''/'' \<notin> set f \<Longrightarrow> CHR ''/'' \<notin> set (replace_ext f)"
  by (auto simp: replace_ext_def dest: in_set_takeD)

lemma path_dirname_child:
  assumes "CHR ''/'' \<notin> set x"
  shows "path_dirname (d @ ''/'' @ x) = (if d = [] then ''/'' else d)"
proof -
  have "dropWhile (\<lambda>c. c \<noteq> CHR ''/'') (rev x @ CHR ''/'' # rev d) =
      dropWhile (\<lambda>c. c \<noteq> CHR ''/'') (CHR ''/'' # rev d)"
    using assms by (intro dropWhile_append2) auto
  then show ?thesis by (simp add: path_dirname_def)
qed

lemma readdirSync_no_slash: "f \<in> set (readdirSync e d) \<Longrightarrow> CHR ''/'' \<notin> set f"
  by (simp add: readdirSync_def)

lemma no_slash_not_prefix: "CHR ''/'' \<notin> set f \<Longrightarrow> \<not> prefix ''/'' f"
  by (auto simp: prefix_def)

lemma outDir_exists: "dirExists (cleanDist b g) (if outDir (config b) = [] then ''/'' else outDir (config b))"
  by (simp add: dirExists_def cleanDist_def inside_def prefix_def)

lemma entry_dir_exists:
  assumes "CHR ''/'' \<notin> set f"
  shows "dirExists (cleanDist b g)
           (path_dirname (absoluteCssPath (config b) (path_join (sassDir (config b)) f)))"
proof -
  from assms have "\<not> prefix ''/'' f" by (rule no_slash_not_prefix)
  then have "absoluteCssPath (config b) (path_join (sassDir (config b)) f) =
      outDir (config b) @ ''/'' @ replace_ext f"
    by (rule absoluteCssPath_entry)
  moreover from assms have "CHR ''/'' \<notin> set (replace_ext f)" by (rule replace_ext_no_slash)
  then have "path_dirname (outDir (config b) @ ''/'' @ replace_ext f) =
      (if outDir (config b) = [] then ''/'' else outDir (config b))"
    by (rule path_dirname_child)
  ultimately show ?thesis using outDir_exists [of b g] by (simp only:)
qed

lemma compiledOf_simps:
  "filePath (compiledOf e cfg f) = f"
  "compiles e f \<Longrightarrow> \<exists>css. readStream (compiledOf e cfg f) = Some css"
  "compiles e f \<Longrightarrow>
     writeStream (compiledOf e cfg f) = Some \<lparr>wpath = absoluteCssPath cfg f, ended = False\<rparr>"
  by (cases "renderWithImporter e f"; cases "snd (renderWithImporter e f)";
      simp add: compiledOf_def compiles_def)+

lemma compiledOf_readStream:
  "compiles e f \<Longrightarrow> readStream (compiledOf e cfg f) = Some (ownCss e f)"
  by (cases "renderWithImporter e f"; cases "snd (renderWithImporter e f)";
      simp add: compiledOf_def compiles_def ownCss_def)

lemma entry_output:
  assumes "f \<in> set (entryNames e d)"
  shows "absoluteCssPath cfg (path_join (sassDir cfg) f) = outDir cfg @ ''/'' @ replace_ext f"
proof -
  from assms have "f \<in> set (readdirSync e d)" by (simp add: entryNames_def)
  then have "\<not> prefix ''/'' f" by (intro no_slash_not_prefix readdirSync_no_slash)
  then show ?thesis by (rule absoluteCssPath_entry)
qed

lemma writeCommon_loop_fields:
  "writeCommon_loop e ci w (g, b) = (g', b') \<Longrightarrow>
   config b' = config b \<and> compiledFiles b' = compiledFiles b \<and>
   commonImports b' = commonImports b \<and>
   errorDetectedThisCycle g' = errorDetectedThisCycle g \<and> inflight g' = inflight g"
proof (induction ci arbitrary: g)
  case Nil
  then show ?case by simp
next
  case (Cons i ci)
  then show ?case
    by (cases "renderPlain e i") (auto dest: Cons.IH)
qed

lemma writeCommon_fields:
  assumes "writeCommon e ci (g, b) = (g', b')"
  shows "config b' = config b \<and> compiledFiles b' = compiledFiles b \<and>
         commonImports b' = commonImports b \<and>
         errorDetectedThisCycle g' = errorDetectedThisCycle g \<and> inflight g' = inflight g"
  using assms writeCommon_loop_fields
    [of e ci "\<lparr>wpath = sharedPath (config b), ended = False\<rparr>"
        "openFile (sharedPath (config b)) g" b g' b']
  by (simp add: writeCommon.simps createWriteStream_def)

lemmas ex_defs = cfg0_def mkEnv_def partials0_def names0_def env_a_def env0_def env_add_def
  proc_init_def bundler_init_def proc0_def bundler0_def file_a_def file_b_def mkFile_def
  new_file_def opened_def urls1_def urls2_def urls3_def urls4_def urls5_def
  file_b2_def env_dup_def proc_dup_def bundler_dup_def
  env_edit_p_def env_rm_b_def cfg2_def bundler2_def env_two_def
  env_b_broken_def env_nested_def env_p_broken_def env_sub_def proc_stale_def

lemmas path_defs = absoluteCssPath_def relativePath_def path_resolve_def path_resolve2_def
  path_normalize_def path_dirname_def dirExists_def openFile_def readdirSync_def
  path_join_def path_basename_def replace_ext_def startsWith_def inside_def suffix_to_prefix

lemmas model_defs = buildAll_def buildAll_start.simps buildAll_rest.simps compileDir_def
  compileSingle.simps writeCommon.simps bundleSingle_def bundleSingle_at.simps
  identifyCommonImports_def isCommonImport_def sassImporter_def createWriteStream_def
  pipeInto_def cleanDist_def removeA_def equalsIgnoreOrder_def Let_def

lemma build0:
  "fst (buildAll env0 True (proc_init, bundler_init)) = Returned"
  "snd (snd (buildAll env0 True (proc_init, bundler_init))) = bundler0"
  "stderr (fst (snd (buildAll env0 True (proc_init, bundler_init)))) = []"
  "disk (fst (snd (buildAll env0 True (proc_init, bundler_init)))) ''/out/a.css'' = Some ''QA''"
  "disk (fst (snd (buildAll env0 True (proc_init, bundler_init)))) ''/out/b.css'' = Some ''RB''"
  "disk (fst (snd (buildAll env0 True (proc_init, bundler_init)))) ''/out/shared.css'' = Some ''P''"
  by (simp_all add: ex_defs model_defs path_defs)

lemma build_dup:
  "fst (buildAll (env_dup [''!bundler/_p.scss'', ''!bundler/_q.scss''] ''A'') True
     (proc_init, bundler_init)) = Returned"
  "snd (snd (buildAll (env_dup [''!bundler/_p.scss'', ''!bundler/_q.scss''] ''A'') True
     (proc_init, bundler_init))) = bundler_dup"
  "disk (fst (snd (buildAll (env_dup [''!bundler/_p.scss'', ''!bundler/_q.scss''] ''A'') True
     (proc_init, bundler_init)))) ''/out/b.css'' = Some ''PRB''"
  by (simp_all add: ex_defs model_defs path_defs)

lemma ex_compile_a:
  "compileSingle (env_a urls css) ''/src/a.scss'' (proc0, bundler0) =
     (new_file ''a'' urls css, opened ''a'' proc0, bundler0)"
  by (simp add: ex_defs compileSingle.simps createWriteStream_def path_defs)

lemma ex_compile_dup:
  "compileSingle (env_dup urls css) ''/src/a.scss'' (proc_dup, bundler_dup) =
     (new_file ''a'' urls css, opened ''a'' proc_dup, bundler_dup)"
  by (simp add: ex_defs compileSingle.simps createWriteStream_def path_defs)

lemma ex_prem:
  "commonImports bundler0 = Some [''/src/_p.scss'']"
  "compiledFiles bundler0 = Some [file_a, file_b]"
  "\<not> compilationError bundler0"
  "\<not> startsWith (path_basename ''/src/a.scss'') ''_''"
  "renderWithImporter (env_a urls css) ''/src/a.scss'' = (urls, Css css)"
  "findIndex (\<lambda>f. filePath f = ''/src/a.scss'') [file_a, file_b] = Some 0"
  by (simp_all add: ex_defs path_defs)

lemma ex_imports:
  "importsList file_a = [''/src/_p.scss'', ''/src/_q.scss'']"
  "importsList (new_file n urls1 c) = [''/src/_p.scss'', ''/src/_q.scss'', ''/src/_q.scss'']"
  "importsList (new_file n urls2 c) = [''/src/_q.scss'']"
  "importsList (new_file n urls3 c) = [''/src/_p.scss'', ''/src/_q.scss'', ''/src/_r.scss'']"
  "importsList (new_file n urls4 c) = [''/src/_p.scss'', ''/src/_q.scss'', ''/src/_s.scss'']"
  "importsList (new_file n urls5 c) =
     [''/src/_p.scss'', ''/src/_q.scss'', ''/src/_s.scss'', ''/src/_t.scss'']"
  by (simp_all add: ex_defs sassImporter_def path_defs)

lemma ex_identify:
  "identifyCommonImports [new_file ''a'' urls3 c, file_b] = Inr [''/src/_p.scss'', ''/src/_r.scss'']"
  "identifyCommonImports [new_file ''a'' urls4 c, file_b] = Inr [''/src/_p.scss'']"
  "identifyCommonImports [new_file ''a'' urls5 c, file_b2] = Inr [''/src/_p.scss'', ''/src/_p.scss'']"
  by (simp_all add: ex_defs identifyCommonImports_def isCommonImport_def sassImporter_def path_defs)

lemma ex_compile_add:
  "compileSingle (env_add ''c.scss'' urls css) ''/src/c.scss'' (proc0, bundler0) =
     (new_file ''c'' urls css, opened ''c'' proc0, bundler0)"
  "compileSingle (env_add ''d.scss'' urls css) ''/src/d.scss'' (proc0, bundler0) =
     (new_file ''d'' urls css, opened ''d'' proc0, bundler0)"
  by (simp_all add: ex_defs compileSingle.simps createWriteStream_def path_defs)

lemma ex_prem_add:
  "renderWithImporter (env_add ''c.scss'' urls css) ''/src/c.scss'' = (urls, Css css)"
  "renderWithImporter (env_add ''d.scss'' urls css) ''/src/d.scss'' = (urls, Css css)"
  "\<not> startsWith (path_basename ''/src/c.scss'') ''_''"
  "\<not> startsWith (path_basename ''/src/d.scss'') ''_''"
  "findIndex (\<lambda>f. filePath f = ''/src/c.scss'') [file_a, file_b] = None"
  by (simp_all add: ex_defs path_defs)

lemmas handler_defs = onFileChange.simps onFileChange_rest.simps onFileAdd.simps
  onFileRemove.simps on_all.simps on_change.simps on_add.simps on_unlink.simps

lemmas msg_defs = errSharedRemoved_def errMsg_def usedFilesMsg_def newline_def dquote_def
  warnPreviousNotFound_def warnNotPersisted_def

lemma ex_unlink_p:
  "on_unlink env0 ''/src/_p.scss'' (proc0, bundler0) =
     (Returned, proc0\<lparr>stderr := [errSharedRemoved], errorDetectedThisCycle := True\<rparr>,
      bundler0\<lparr>commonImports := Some [], compilationError := True\<rparr>)"
  by (simp add: ex_defs handler_defs path_defs Let_def)

lemma ex_unlink_q:
  "on_unlink env0 ''/src/_q.scss'' (proc0, bundler0) =
     (Returned,
      proc0\<lparr>stderr := [errMsg @ newline @ '' - '' @ newline @ '' - /src/a.scss''],
            errorDetectedThisCycle := True\<rparr>,
      bundler0\<lparr>compilationError := True\<rparr>)"
  by (simp add: ex_defs handler_defs path_defs Let_def usedFilesMsg_def)

lemma ex_change_fails:
  "on_change env_two ''/src/a.scss'' (proc0, bundler0) =
     (Returned, proc0\<lparr>stderr := [''syntax error''], errorDetectedThisCycle := True\<rparr>,
      bundler0\<lparr>compilationError := True\<rparr>)"
  by (simp add: ex_defs handler_defs model_defs path_defs)

lemmas notion_defs = entryNames_def compiles_def rendersPlain_def compiledOf_def

section \<open>The claims\<close>

text \<open>
  Claim C1. For a non-empty array of compiled files, \<open>identifyCommonImports\<close> returns (it
  does not throw), and the elements of the array it returns are exactly the imports that
  occur in the import list of every file. The same set comes out for any reordering of
  the files. For one file alone the result is that file's import list itself.
\<close>

theorem identifyCommonImports_intersection:
  assumes "files \<noteq> []" and "mset files' = mset files"
  shows "(\<exists>r r'. identifyCommonImports files = Inr r \<and> identifyCommonImports files' = Inr r' \<and>
            set r = (\<Inter>f\<in>set files. set (importsList f)) \<and> set r' = set r) \<and>
         identifyCommonImports [f] = Inr (importsList f)"
proof -
  from assms have ne: "files' \<noteq> []" by auto
  from assms(2) have st: "set files' = set files" by (metis set_mset_mset)
  obtain r where r: "identifyCommonImports files = Inr r"
      "set r = (\<Inter>f\<in>set files. set (importsList f))"
    using identifyCommonImports_set [OF assms(1)] by blast
  obtain r' where r': "identifyCommonImports files' = Inr r'"
      "set r' = (\<Inter>f\<in>set files'. set (importsList f))"
    using identifyCommonImports_set [OF ne] by blast
  have "identifyCommonImports [f] = Inr (importsList f)"
    by (simp add: identifyCommonImports_def isCommonImport_def)
  with r r' st show ?thesis by simp
qed

theorem identifyCommonImports_intersection_witness:
  "[file_a, file_b] \<noteq> [] \<and> mset [file_b, file_a] = mset [file_a, file_b] \<and>
   identifyCommonImports [file_a, file_b] = Inr [''/src/_p.scss''] \<and>
   identifyCommonImports [file_b, file_a] = Inr [''/src/_p.scss''] \<and>
   (\<Inter>f\<in>set [file_a, file_b]. set (importsList f)) = {''/src/_p.scss''} \<and>
   identifyCommonImports [file_a] = Inr [''/src/_p.scss'', ''/src/_q.scss'']"
  using identifyCommonImports_intersection [of "[file_a, file_b]" "[file_b, file_a]" file_a]
  by (simp add: identifyCommonImports_def isCommonImport_def file_a_def file_b_def mkFile_def)

text \<open>
  Claim C2, as amended. A change event for an entry (no error flag, a prior artifact,
  compilation succeeds) replaces the artifact. If the new and the old import sets are
  equal, only this artifact is bundled. Otherwise, if a removed import is a common import,
  a full build is run. Otherwise, if an import was added and the recomputed common imports
  differ from the stored ones as multisets (in length or in how often a value occurs), a
  full build is run. In every remaining case only this artifact is bundled. Bundling the one
  artifact leaves the common imports and every other output file as they were.
\<close>

theorem onFileChange_entry_decision:
  assumes "commonImports b = Some ci" and "compiledFiles b = Some cfs"
    and "\<not> compilationError b"
    and "\<not> startsWith (path_basename p) ''_''"
    and "renderWithImporter e p = (urls, Css css)"
    and "compileSingle e p (g, b) = (newFile, g1, b1)"
    and "findIndex (\<lambda>f. filePath f = p) cfs = Some i"
    and "oldFile = cfs ! i" and "cfs1 = cfs[i := newFile]"
    and "b2 = b\<lparr>compiledFiles := Some cfs1\<rparr>"
    and "new = set (importsList newFile)" and "old = set (importsList oldFile)"
  shows "\<exists>nc. identifyCommonImports cfs1 = Inr nc \<and>
    (new = old \<longrightarrow>
       onFileChange e p (g, b) = bundleSingle_at e newFile i cfs1 ci (g1, b2)) \<and>
    (new \<noteq> old \<and> (old - new) \<inter> set ci \<noteq> {} \<longrightarrow>
       onFileChange e p (g, b) = buildAll e True (g1, b2)) \<and>
    (new \<noteq> old \<and> (old - new) \<inter> set ci = {} \<and> new - old \<noteq> {} \<and> mset nc \<noteq> mset ci \<longrightarrow>
       onFileChange e p (g, b) = buildAll e True (g1, b2)) \<and>
    (new \<noteq> old \<and> (old - new) \<inter> set ci = {} \<and> (new - old = {} \<or> mset nc = mset ci) \<longrightarrow>
       onFileChange e p (g, b) = bundleSingle_at e newFile i cfs1 ci (g1, b2)) \<and>
    (\<forall>out g2 b3. bundleSingle_at e newFile i cfs1 ci (g1, b2) = (out, g2, b3) \<longrightarrow>
       commonImports b3 = Some ci \<and>
       (\<exists>file'. compiledFiles b3 = Some (cfs[i := file'])) \<and>
       (\<forall>q. q \<noteq> absoluteCssPath (config b) p \<longrightarrow> disk g2 q = disk g q))"
proof -
  let ?out = "absoluteCssPath (config b) p"
  let ?S = "bundleSingle_at e newFile i cfs1 ci (g1, b2)"
  let ?F = "buildAll e True (g1, b2)"
  let ?nl = "importsList newFile" and ?ol = "importsList oldFile"
  from assms(5,6) have nf: "writeStream newFile = Some \<lparr>wpath = ?out, ended = False\<rparr>"
    and g1: "g1 = openFile ?out g" and b1: "b1 = b"
    by (auto simp: compileSingle_Css)
  from assms(7) have "i < length cfs" by (rule findIndex_Some_less)
  then have "cfs1 \<noteq> []" using assms(9) by auto
  then obtain nc where nc: "identifyCommonImports cfs1 = Inr nc"
    using identifyCommonImports_set by blast
  have unfold: "onFileChange e p (g, b) =
      (if equalsIgnoreOrder ?nl ?ol then ?S
       else if filter (\<lambda>i. i \<in> set ci) (filter (\<lambda>i. i \<notin> set ?nl) ?ol) \<noteq> [] then ?F
       else if filter (\<lambda>i. i \<notin> set ?ol) ?nl \<noteq> []
         then (if \<not> equalsIgnoreOrder nc ci then ?F else ?S)
         else ?S)"
    using assms(1-4,6,7) b1 nc
    by (simp add: onFileChange.simps onFileChange_rest.simps Let_def
        assms(8) [symmetric] assms(9) [symmetric] assms(10) [symmetric])
  have c1: "onFileChange e p (g, b) = ?S" if "new = old"
  proof -
    from that have "set ?nl = set ?ol" using assms(11,12) by simp
    then have "filter (\<lambda>i. i \<in> set ci) (filter (\<lambda>i. i \<notin> set ?nl) ?ol) = []"
      and "filter (\<lambda>i. i \<notin> set ?ol) ?nl = []"
      by (auto simp: filter_empty_conv)
    then show ?thesis by (simp add: unfold)
  qed
  have ne: "\<not> equalsIgnoreOrder ?nl ?ol" if "new \<noteq> old"
    using that equalsIgnoreOrder_set [of ?nl ?ol] assms(11,12) by blast
  have c2: "onFileChange e p (g, b) = ?F" if "new \<noteq> old" "(old - new) \<inter> set ci \<noteq> {}"
    using that ne removed_common_empty [of ci ?nl ?ol] assms(11,12) by (simp add: unfold)
  have c3: "onFileChange e p (g, b) = ?F"
    if "new \<noteq> old" "(old - new) \<inter> set ci = {}" "new - old \<noteq> {}" "mset nc \<noteq> mset ci"
    using that ne removed_common_empty [of ci ?nl ?ol] added_empty [of ?ol ?nl] assms(11,12)
    by (simp add: unfold equalsIgnoreOrder_mset)
  have c4: "onFileChange e p (g, b) = ?S"
    if "new \<noteq> old" "(old - new) \<inter> set ci = {}" "new - old = {} \<or> mset nc = mset ci"
    using that ne removed_common_empty [of ci ?nl ?ol] added_empty [of ?ol ?nl] assms(11,12)
    by (auto simp: unfold equalsIgnoreOrder_mset)
  have fr: "commonImports b3 = Some ci \<and> (\<exists>file'. compiledFiles b3 = Some (cfs[i := file'])) \<and>
       (\<forall>q. q \<noteq> ?out \<longrightarrow> disk g2 q = disk g q)" if "?S = (out, g2, b3)" for out g2 b3
  proof -
    from bundleSingle_at_frame [OF that nf]
    have "commonImports b3 = commonImports b2"
      and "\<exists>f'. compiledFiles b3 = Some (cfs1[i := f'])"
      and "\<forall>q. q \<noteq> ?out \<longrightarrow> disk g2 q = disk g1 q"
      by auto
    then show ?thesis using assms(1,9,10) g1 by (auto simp: openFile_other)
  qed
  from nc c1 c2 c3 c4 fr show ?thesis by blast
qed


theorem onFileChange_entry_decision_witness:
  "set (importsList (new_file ''a'' urls1 ''A1'')) = set (importsList file_a) \<and>
   onFileChange (env_a urls1 ''A1'') ''/src/a.scss'' (proc0, bundler0) =
     bundleSingle_at (env_a urls1 ''A1'') (new_file ''a'' urls1 ''A1'') 0
       [new_file ''a'' urls1 ''A1'', file_b] [''/src/_p.scss'']
       (opened ''a'' proc0, bundler0\<lparr>compiledFiles := Some [new_file ''a'' urls1 ''A1'', file_b]\<rparr>) \<and>
   (set (importsList file_a) - set (importsList (new_file ''a'' urls2 ''A2''))) \<inter>
      set [''/src/_p.scss''] \<noteq> {} \<and>
   onFileChange (env_a urls2 ''A2'') ''/src/a.scss'' (proc0, bundler0) =
     buildAll (env_a urls2 ''A2'') True
       (opened ''a'' proc0, bundler0\<lparr>compiledFiles := Some [new_file ''a'' urls2 ''A2'', file_b]\<rparr>) \<and>
   set (importsList (new_file ''a'' urls3 ''A3'')) - set (importsList file_a) \<noteq> {} \<and>
   onFileChange (env_a urls3 ''A3'') ''/src/a.scss'' (proc0, bundler0) =
     buildAll (env_a urls3 ''A3'') True
       (opened ''a'' proc0, bundler0\<lparr>compiledFiles := Some [new_file ''a'' urls3 ''A3'', file_b]\<rparr>) \<and>
   set (importsList (new_file ''a'' urls4 ''A4'')) - set (importsList file_a) \<noteq> {} \<and>
   onFileChange (env_a urls4 ''A4'') ''/src/a.scss'' (proc0, bundler0) =
     bundleSingle_at (env_a urls4 ''A4'') (new_file ''a'' urls4 ''A4'') 0
       [new_file ''a'' urls4 ''A4'', file_b] [''/src/_p.scss'']
       (opened ''a'' proc0, bundler0\<lparr>compiledFiles := Some [new_file ''a'' urls4 ''A4'', file_b]\<rparr>) \<and>
   disk (fst (snd (onFileChange (env_a urls4 ''A4'') ''/src/a.scss'' (proc0, bundler0))))
     ''/out/b.css'' = Some ''RB''"
proof -
  note T = onFileChange_entry_decision
    [OF ex_prem(1-5) ex_compile_a ex_prem(6) refl refl refl refl refl]
  have s1: "set (importsList (new_file ''a'' urls1 ''A1'')) = set (importsList file_a)"
    by code_simp+
  from T [of urls1 "''A1''"] s1
  have r1: "onFileChange (env_a urls1 ''A1'') ''/src/a.scss'' (proc0, bundler0) =
     bundleSingle_at (env_a urls1 ''A1'') (new_file ''a'' urls1 ''A1'') 0
       [new_file ''a'' urls1 ''A1'', file_b] [''/src/_p.scss'']
       (opened ''a'' proc0, bundler0\<lparr>compiledFiles := Some [new_file ''a'' urls1 ''A1'', file_b]\<rparr>)"
    by (elim exE conjE) clarsimp
  have s2: "(set (importsList file_a) - set (importsList (new_file ''a'' urls2 ''A2''))) \<inter>
      set [''/src/_p.scss''] \<noteq> {}"
    and n2: "set (importsList (new_file ''a'' urls2 ''A2'')) \<noteq> set (importsList file_a)"
    by code_simp+
  from T [of urls2 "''A2''"] s2 n2
  have r2: "onFileChange (env_a urls2 ''A2'') ''/src/a.scss'' (proc0, bundler0) =
     buildAll (env_a urls2 ''A2'') True
       (opened ''a'' proc0, bundler0\<lparr>compiledFiles := Some [new_file ''a'' urls2 ''A2'', file_b]\<rparr>)"
    by (elim exE conjE) clarsimp
  have s3: "set (importsList (new_file ''a'' urls3 ''A3'')) - set (importsList file_a) \<noteq> {}"
    and n3: "set (importsList (new_file ''a'' urls3 ''A3'')) \<noteq> set (importsList file_a)"
    and k3: "(set (importsList file_a) - set (importsList (new_file ''a'' urls3 ''A3''))) \<inter>
      set [''/src/_p.scss''] = {}"
    and m3: "mset [''/src/_p.scss'', ''/src/_r.scss''] \<noteq> mset [''/src/_p.scss'']"
    by code_simp+
  from T [of urls3 "''A3''"] s3 n3 k3 m3 ex_identify(1) [of "''A3''"]
  have r3: "onFileChange (env_a urls3 ''A3'') ''/src/a.scss'' (proc0, bundler0) =
     buildAll (env_a urls3 ''A3'') True
       (opened ''a'' proc0, bundler0\<lparr>compiledFiles := Some [new_file ''a'' urls3 ''A3'', file_b]\<rparr>)"
    by (elim exE conjE) clarsimp
  have s4: "set (importsList (new_file ''a'' urls4 ''A4'')) - set (importsList file_a) \<noteq> {}"
    and n4: "set (importsList (new_file ''a'' urls4 ''A4'')) \<noteq> set (importsList file_a)"
    and k4: "(set (importsList file_a) - set (importsList (new_file ''a'' urls4 ''A4''))) \<inter>
      set [''/src/_p.scss''] = {}"
    by code_simp+
  from T [of urls4 "''A4''"] s4 n4 k4 ex_identify(2) [of "''A4''"]
  have r4: "onFileChange (env_a urls4 ''A4'') ''/src/a.scss'' (proc0, bundler0) =
     bundleSingle_at (env_a urls4 ''A4'') (new_file ''a'' urls4 ''A4'') 0
       [new_file ''a'' urls4 ''A4'', file_b] [''/src/_p.scss'']
       (opened ''a'' proc0, bundler0\<lparr>compiledFiles := Some [new_file ''a'' urls4 ''A4'', file_b]\<rparr>)"
    by (elim exE conjE) clarsimp
  from T [of urls4 "''A4''"]
  have f4: "\<And>out g2 b3. bundleSingle_at (env_a urls4 ''A4'') (new_file ''a'' urls4 ''A4'') 0
       [new_file ''a'' urls4 ''A4'', file_b] [''/src/_p.scss'']
       (opened ''a'' proc0, bundler0\<lparr>compiledFiles := Some [new_file ''a'' urls4 ''A4'', file_b]\<rparr>)
         = (out, g2, b3) \<Longrightarrow>
       disk g2 ''/out/b.css'' = disk proc0 ''/out/b.css''"
    by (elim exE conjE) (simp add: cfg0_def bundler0_def path_defs)
  from f4 r4 have d4: "disk (fst (snd (onFileChange (env_a urls4 ''A4'') ''/src/a.scss'' (proc0, bundler0))))
     ''/out/b.css'' = disk proc0 ''/out/b.css''"
    by (metis prod.collapse)
  have "disk proc0 ''/out/b.css'' = Some ''RB''" by (simp add: ex_defs)
  with s1 r1 s2 r2 s3 r3 s4 r4 d4 show ?thesis by simp
qed

text \<open>
  The claim C2 as first stated compares the recomputed common imports with the stored ones
  as sets. Here \<^verbatim>\<open>b.scss\<close> imports \<^verbatim>\<open>_p\<close> twice; after the change of \<^verbatim>\<open>a.scss\<close> the
  recomputed common imports hold \<^verbatim>\<open>_p\<close> twice, the same set as before, and still the
  handler runs a full build: \<^verbatim>\<open>b.css\<close> and the shared file are rewritten and the stored
  common imports change.
\<close>

theorem onFileChange_entry_decision_counterexample:
  "commonImports bundler_dup = Some [''/src/_p.scss''] \<and>
   compiledFiles bundler_dup = Some [file_a, file_b2] \<and>
   \<not> compilationError bundler_dup \<and>
   compileSingle (env_dup urls5 ''A'') ''/src/a.scss'' (proc_dup, bundler_dup) =
     (new_file ''a'' urls5 ''A'', opened ''a'' proc_dup, bundler_dup) \<and>
   set (importsList (new_file ''a'' urls5 ''A'')) \<noteq> set (importsList file_a) \<and>
   (set (importsList file_a) - set (importsList (new_file ''a'' urls5 ''A''))) \<inter>
      set [''/src/_p.scss''] = {} \<and>
   identifyCommonImports [new_file ''a'' urls5 ''A'', file_b2] =
      Inr [''/src/_p.scss'', ''/src/_p.scss''] \<and>
   set [''/src/_p.scss'', ''/src/_p.scss''] = set [''/src/_p.scss''] \<and>
   disk proc_dup ''/out/b.css'' = Some ''PRB'' \<and>
   disk proc_dup ''/out/shared.css'' = Some ''P'' \<and>
   fst (onFileChange (env_dup urls5 ''A'') ''/src/a.scss'' (proc_dup, bundler_dup)) = Returned \<and>
   disk (fst (snd (onFileChange (env_dup urls5 ''A'') ''/src/a.scss'' (proc_dup, bundler_dup))))
     ''/out/b.css'' = Some ''RB'' \<and>
   disk (fst (snd (onFileChange (env_dup urls5 ''A'') ''/src/a.scss'' (proc_dup, bundler_dup))))
     ''/out/shared.css'' = Some ''PP'' \<and>
   commonImports (snd (snd (onFileChange (env_dup urls5 ''A'') ''/src/a.scss'' (proc_dup, bundler_dup)))) =
     Some [''/src/_p.scss'', ''/src/_p.scss'']"
proof -
  have a: "set (importsList (new_file ''a'' urls5 ''A'')) \<noteq> set (importsList file_a)"
    "(set (importsList file_a) - set (importsList (new_file ''a'' urls5 ''A''))) \<inter>
      set [''/src/_p.scss''] = {}"
    by code_simp+
  have b: "commonImports bundler_dup = Some [''/src/_p.scss'']"
    "compiledFiles bundler_dup = Some [file_a, file_b2]"
    "\<not> compilationError bundler_dup"
    "disk proc_dup ''/out/b.css'' = Some ''PRB''"
    "disk proc_dup ''/out/shared.css'' = Some ''P''"
    by (simp_all add: ex_defs)
  have c: "fst (onFileChange (env_dup urls5 ''A'') ''/src/a.scss'' (proc_dup, bundler_dup)) = Returned"
    "disk (fst (snd (onFileChange (env_dup urls5 ''A'') ''/src/a.scss'' (proc_dup, bundler_dup))))
     ''/out/b.css'' = Some ''RB''"
    "disk (fst (snd (onFileChange (env_dup urls5 ''A'') ''/src/a.scss'' (proc_dup, bundler_dup))))
     ''/out/shared.css'' = Some ''PP''"
    "commonImports (snd (snd (onFileChange (env_dup urls5 ''A'') ''/src/a.scss'' (proc_dup, bundler_dup)))) =
     Some [''/src/_p.scss'', ''/src/_p.scss'']"
    by (simp_all add: ex_defs onFileChange.simps onFileChange_rest.simps findIndex.simps
        model_defs path_defs)
  from a b c ex_compile_dup [of urls5 "''A''"] ex_identify(3) [of "''A''"] show ?thesis by simp
qed

text \<open>
  Claim C3 does not hold of the code. After rewriting the shared file for a changed
  common partial, \<^verbatim>\<open>onFileChange\<close> does not return: it goes on to compile the partial as
  if it were an entry. Here the partial \<^verbatim>\<open>_p.scss\<close> compiles, so an output file
  \<^verbatim>\<open>/out/_p.css\<close> is created, empty, and the handler ends with the warning that no
  previous compilation was found.
\<close>

theorem onFileChange_common_partial_falls_through:
  "startsWith (path_basename ''/src/_p.scss'') ''_'' \<and>
   commonImports bundler0 = Some [''/src/_p.scss''] \<and>
   \<not> compilationError bundler0 \<and>
   disk proc0 ''/out/_p.css'' = None \<and>
   fst (on_change env_edit_p ''/src/_p.scss'' (proc0, bundler0)) = Returned \<and>
   snd (snd (on_change env_edit_p ''/src/_p.scss'' (proc0, bundler0))) = bundler0 \<and>
   disk (fst (snd (on_change env_edit_p ''/src/_p.scss'' (proc0, bundler0)))) ''/out/shared.css'' =
     Some ''P2'' \<and>
   disk (fst (snd (on_change env_edit_p ''/src/_p.scss'' (proc0, bundler0)))) ''/out/_p.css'' =
     Some [] \<and>
   stderr (fst (snd (on_change env_edit_p ''/src/_p.scss'' (proc0, bundler0)))) =
     [warnPreviousNotFound]"
  by (simp add: ex_defs handler_defs model_defs path_defs)

text \<open>
  Claim C4, as amended. If the compilation of some entry fails during a full build, the
  build returns before anything is bundled: the error flag is set and the stored artifacts
  and common imports are as before. No compiled text has been written, but the output
  directory was emptied when the build began: afterwards it holds one empty file for each
  entry that did compile and nothing else, so the output files of the last successful
  build are gone or emptied. Files outside the output directory are untouched.
\<close>

theorem buildAll_compile_failure:
  assumes "nm \<in> set (entryNames e (sassDir (config b)))"
    and "\<not> compiles e (path_join (sassDir (config b)) nm)"
  shows "\<exists>g' b'. buildAll e persist (g, b) = (Returned, g', b') \<and>
     compilationError b' \<and> compiledFiles b' = compiledFiles b \<and>
     commonImports b' = commonImports b \<and>
     (\<forall>p. disk g' p =
        (if \<exists>f\<in>set (entryNames e (sassDir (config b))).
               compiles e (path_join (sassDir (config b)) f) \<and>
               p = absoluteCssPath (config b) (path_join (sassDir (config b)) f)
         then Some []
         else if inside (outDir (config b)) p then None else disk g p))"
proof -
  let ?d = "sassDir (config b)"
  from compileDir_loop_result [of e ?d "readdirSync e ?d" "[]" "cleanDist b g" b]
  obtain files g2 b2 where loop:
    "compileDir_loop e ?d (readdirSync e ?d) [] (cleanDist b g, b) = (files, g2, b2)"
    "compiledFiles b2 = compiledFiles b" "commonImports b2 = commonImports b"
    "compilationError b2 =
       (compilationError b \<or>
        (\<exists>f\<in>set (readdirSync e ?d). \<not> startsWith f ''_'' \<and> \<not> compiles e (path_join ?d f)))"
    "\<forall>p. disk g2 p =
        (if \<exists>f\<in>set (readdirSync e ?d). \<not> startsWith f ''_'' \<and> compiles e (path_join ?d f) \<and>
               p = absoluteCssPath (config b) (path_join ?d f) \<and>
               dirExists (cleanDist b g) (path_dirname p)
         then Some [] else disk (cleanDist b g) p)"
    by blast
  from assms loop(4) have err: "compilationError b2"
    by (auto simp: entryNames_def)
  with loop(1) have run: "buildAll e persist (g, b) = (Returned, g2, b2)"
    by (simp add: buildAll_def buildAll_start.simps compileDir_def)
  have ex: "dirExists (cleanDist b g) (path_dirname (absoluteCssPath (config b) (path_join ?d f)))"
    if "f \<in> set (readdirSync e ?d)" for f
    using that by (intro entry_dir_exists readdirSync_no_slash)
  have "\<forall>p. disk g2 p =
        (if \<exists>f\<in>set (entryNames e ?d). compiles e (path_join ?d f) \<and>
               p = absoluteCssPath (config b) (path_join ?d f)
         then Some []
         else if inside (outDir (config b)) p then None else disk g p)"
    using loop(5) ex by (auto simp: entryNames_def cleanDist_def)
  with run err loop(2,3) show ?thesis by blast
qed

theorem buildAll_compile_failure_witness:
  "''b.scss'' \<in> set (entryNames env_b_broken (sassDir (config bundler0))) \<and>
   \<not> compiles env_b_broken (path_join (sassDir (config bundler0)) ''b.scss'') \<and>
   fst (buildAll env_b_broken True (proc0, bundler0)) = Returned \<and>
   compilationError (snd (snd (buildAll env_b_broken True (proc0, bundler0)))) \<and>
   compiledFiles (snd (snd (buildAll env_b_broken True (proc0, bundler0)))) = Some [file_a, file_b] \<and>
   disk (fst (snd (buildAll env_b_broken True (proc0, bundler0)))) ''/out/a.css'' = Some [] \<and>
   disk (fst (snd (buildAll env_b_broken True (proc0, bundler0)))) ''/out/b.css'' = None \<and>
   disk (fst (snd (buildAll env_b_broken True (proc0, bundler0)))) ''/elsewhere.css'' =
     disk proc0 ''/elsewhere.css''"
proof -
  have h: "''b.scss'' \<in> set (entryNames env_b_broken (sassDir (config bundler0)))"
    "\<not> compiles env_b_broken (path_join (sassDir (config bundler0)) ''b.scss'')"
    by (simp_all add: ex_defs notion_defs path_defs)
  from buildAll_compile_failure [OF h, of True proc0]
  obtain g' b' where r: "buildAll env_b_broken True (proc0, bundler0) = (Returned, g', b')"
    "compilationError b'" "compiledFiles b' = compiledFiles bundler0"
    and d: "\<forall>p. disk g' p =
        (if \<exists>f\<in>set (entryNames env_b_broken (sassDir (config bundler0))).
               compiles env_b_broken (path_join (sassDir (config bundler0)) f) \<and>
               p = absoluteCssPath (config bundler0) (path_join (sassDir (config bundler0)) f)
         then Some []
         else if inside (outDir (config bundler0)) p then None else disk proc0 p)"
    by blast
  from d have "disk g' ''/out/a.css'' = Some []" "disk g' ''/out/b.css'' = None"
    "disk g' ''/elsewhere.css'' = disk proc0 ''/elsewhere.css''"
    by (simp_all add: ex_defs notion_defs path_defs)
  with h r show ?thesis by (simp add: bundler0_def)
qed

text \<open>
  The claim C4 as first stated has the output files of the last successful build stay as
  they were. Here \<^verbatim>\<open>b.scss\<close> fails to compile: after the build \<^verbatim>\<open>a.css\<close> is empty, and
  \<^verbatim>\<open>b.css\<close> and the shared file are gone.
\<close>

theorem buildAll_compile_failure_counterexample:
  "\<not> compiles env_b_broken ''/src/b.scss'' \<and>
   disk proc0 ''/out/a.css'' = Some ''QA'' \<and>
   disk proc0 ''/out/b.css'' = Some ''RB'' \<and>
   disk proc0 ''/out/shared.css'' = Some ''P'' \<and>
   disk (fst (snd (buildAll env_b_broken True (proc0, bundler0)))) ''/out/a.css'' = Some [] \<and>
   disk (fst (snd (buildAll env_b_broken True (proc0, bundler0)))) ''/out/b.css'' = None \<and>
   disk (fst (snd (buildAll env_b_broken True (proc0, bundler0)))) ''/out/shared.css'' = None"
  by (simp add: ex_defs notion_defs model_defs path_defs)

text \<open>
  Claim C5, as amended. A remove event for a partial that some artifact imports (no error
  flag, state persisted) always returns with the error flag and the dedup flag set and one
  more line on standard error; no output file and no artifact changes. If the partial is
  a common import, its first occurrence is removed from the stored common imports and the
  line is a fixed message that names no entry. If it is not, the common imports stay and
  the line lists the path of every artifact that imports the partial.
\<close>

theorem onFileRemove_partial_in_use:
  assumes "commonImports b = Some ci" and "compiledFiles b = Some cfs"
    and "\<not> compilationError b"
    and "startsWith (path_basename p) ''_''"
    and "path_resolve p \<in> set (concat (map importsList cfs))"
  shows "\<exists>g' b'. on_unlink e p (g, b) = (Returned, g', b') \<and>
     compilationError b' \<and> errorDetectedThisCycle g' \<and> disk g' = disk g \<and>
     inflight g' = inflight g \<and> compiledFiles b' = Some cfs \<and>
     (path_resolve p \<in> set ci \<longrightarrow>
        commonImports b' = Some (remove1 (path_resolve p) ci) \<and>
        stderr g' = stderr g @ [errSharedRemoved]) \<and>
     (path_resolve p \<notin> set ci \<longrightarrow>
        commonImports b' = Some ci \<and>
        (\<exists>report. stderr g' = stderr g @ [report] \<and>
           (\<forall>f\<in>set cfs. path_resolve p \<in> set (importsList f) \<longrightarrow>
              sublist (newline @ '' - '' @ filePath f) report)))"
proof (cases "path_resolve p \<in> set ci")
  case True
  with assms show ?thesis
    by (simp add: on_unlink.simps onFileRemove.simps Let_def)
next
  case False
  let ?aff = "filter (\<lambda>f. path_resolve p \<in> set (importsList f)) cfs"
  let ?report = "errMsg @ newline @ usedFilesMsg ?aff"
  have "\<forall>f\<in>set cfs. path_resolve p \<in> set (importsList f) \<longrightarrow>
          sublist (newline @ '' - '' @ filePath f) ?report"
  proof (intro ballI impI)
    fix f
    assume "f \<in> set cfs" and "path_resolve p \<in> set (importsList f)"
    then have "f \<in> set ?aff" by simp
    then show "sublist (newline @ '' - '' @ filePath f) ?report"
      by (rule usedFilesMsg_lists)
  qed
  moreover have "on_unlink e p (g, b) =
      (Returned, g\<lparr>stderr := stderr g @ [?report], errorDetectedThisCycle := True\<rparr>,
       b\<lparr>compilationError := True\<rparr>)"
    using False assms by (simp add: on_unlink.simps onFileRemove.simps Let_def)
  ultimately show ?thesis using False assms(1,2) by simp

qed

theorem onFileRemove_partial_in_use_witness:
  "startsWith (path_basename ''/src/_p.scss'') ''_'' \<and>
   path_resolve ''/src/_p.scss'' \<in> set (concat (map importsList [file_a, file_b])) \<and>
   path_resolve ''/src/_p.scss'' \<in> set [''/src/_p.scss''] \<and>
   on_unlink env0 ''/src/_p.scss'' (proc0, bundler0) =
     (Returned, proc0\<lparr>stderr := [errSharedRemoved], errorDetectedThisCycle := True\<rparr>,
      bundler0\<lparr>commonImports := Some [], compilationError := True\<rparr>) \<and>
   startsWith (path_basename ''/src/_q.scss'') ''_'' \<and>
   path_resolve ''/src/_q.scss'' \<in> set (concat (map importsList [file_a, file_b])) \<and>
   path_resolve ''/src/_q.scss'' \<notin> set [''/src/_p.scss''] \<and>
   ''/src/_q.scss'' \<in> set (importsList file_a) \<and>
   sublist (newline @ '' - '' @ filePath file_a)
     (last (stderr (fst (snd (on_unlink env0 ''/src/_q.scss'' (proc0, bundler0))))))"
proof -
  have h: "startsWith (path_basename ''/src/_p.scss'') ''_''"
    "path_resolve ''/src/_p.scss'' \<in> set (concat (map importsList [file_a, file_b]))"
    "path_resolve ''/src/_p.scss'' \<in> set [''/src/_p.scss'']"
    "startsWith (path_basename ''/src/_q.scss'') ''_''"
    "path_resolve ''/src/_q.scss'' \<in> set (concat (map importsList [file_a, file_b]))"
    "path_resolve ''/src/_q.scss'' \<notin> set [''/src/_p.scss'']"
    "path_resolve ''/src/_q.scss'' \<in> set (importsList file_a)"
    by (simp_all add: ex_defs path_defs)
  from onFileRemove_partial_in_use [OF ex_prem(1-3) h(1,2), of env0 proc0] h(3)
  have p: "on_unlink env0 ''/src/_p.scss'' (proc0, bundler0) =
     (Returned, proc0\<lparr>stderr := [errSharedRemoved], errorDetectedThisCycle := True\<rparr>,
      bundler0\<lparr>commonImports := Some [], compilationError := True\<rparr>)"
    by (simp add: ex_unlink_p)
  from onFileRemove_partial_in_use [OF ex_prem(1-3) h(4,5), of env0 proc0] h(6)
  obtain g' b' report where
    q: "on_unlink env0 ''/src/_q.scss'' (proc0, bundler0) = (Returned, g', b')"
    and r: "stderr g' = stderr proc0 @ [report]"
    and s: "\<forall>f\<in>set [file_a, file_b]. path_resolve ''/src/_q.scss'' \<in> set (importsList f) \<longrightarrow>
              sublist (newline @ '' - '' @ filePath f) report"
    by blast
  from s h(7) have "sublist (newline @ '' - '' @ filePath file_a) report" by simp
  with q r have "sublist (newline @ '' - '' @ filePath file_a)
     (last (stderr (fst (snd (on_unlink env0 ''/src/_q.scss'' (proc0, bundler0))))))"
    by simp
  with h p show ?thesis by (simp add: path_resolve_def)
qed

text \<open>
  The claim C5 as first stated has the report list every affected entry in all cases.
  Here the removed partial is a common import of both entries; the report is the fixed
  message, and neither entry's path occurs in it.
\<close>

theorem onFileRemove_partial_in_use_counterexample:
  "startsWith (path_basename ''/src/_p.scss'') ''_'' \<and>
   ''/src/_p.scss'' \<in> set (importsList file_a) \<and>
   ''/src/_p.scss'' \<in> set (importsList file_b) \<and>
   compiledFiles bundler0 = Some [file_a, file_b] \<and>
   stderr (fst (snd (on_unlink env0 ''/src/_p.scss'' (proc0, bundler0)))) = [errSharedRemoved] \<and>
   \<not> sublist (filePath file_a) errSharedRemoved \<and>
   \<not> sublist (filePath file_b) errSharedRemoved"
proof -
  have "\<not> sublist (filePath file_a) errSharedRemoved" "\<not> sublist (filePath file_b) errSharedRemoved"
    by code_simp+
  moreover have "startsWith (path_basename ''/src/_p.scss'') ''_''"
    "''/src/_p.scss'' \<in> set (importsList file_a)" "''/src/_p.scss'' \<in> set (importsList file_b)"
    "compiledFiles bundler0 = Some [file_a, file_b]"
    by (simp_all add: ex_defs path_defs)
  ultimately show ?thesis by (simp add: ex_unlink_p)
qed




text \<open>
  Claim C7 does not hold of the code. Removing the entry \<^verbatim>\<open>b.scss\<close> changes the common
  imports, so \<^verbatim>\<open>onFileRemove\<close> starts a full build, and returns without awaiting it: when
  the handler has returned the build is in flight, the output directory holds the empty
  \<^verbatim>\<open>a.css\<close> and no shared file, and the stored common imports are the old ones. Only
  running the pending build to its end writes the shared file and stores the new ones.
\<close>

theorem onFileRemove_leaves_build_in_flight:
  "\<not> startsWith (path_basename ''/src/b.scss'') ''_'' \<and>
   \<not> compilationError bundler0 \<and>
   fst (on_unlink env_rm_b ''/src/b.scss'' (proc0, bundler0)) = Returned \<and>
   inflight (fst (snd (on_unlink env_rm_b ''/src/b.scss'' (proc0, bundler0)))) =
     [PendingBuild True
        [new_file ''a'' [''!bundler/_p.scss'', ''!bundler/_q.scss''] ''A'']
        [''/src/_p.scss'', ''/src/_q.scss'']] \<and>
   disk (fst (snd (on_unlink env_rm_b ''/src/b.scss'' (proc0, bundler0)))) ''/out/a.css'' = Some [] \<and>
   disk (fst (snd (on_unlink env_rm_b ''/src/b.scss'' (proc0, bundler0)))) ''/out/shared.css'' = None \<and>
   commonImports (snd (snd (on_unlink env_rm_b ''/src/b.scss'' (proc0, bundler0)))) =
     Some [''/src/_p.scss''] \<and>
   disk (fst (snd (resume env_rm_b
       (PendingBuild True [new_file ''a'' [''!bundler/_p.scss'', ''!bundler/_q.scss''] ''A'']
          [''/src/_p.scss'', ''/src/_q.scss''])
       (snd (on_unlink env_rm_b ''/src/b.scss'' (proc0, bundler0)))))) ''/out/shared.css'' =
     Some ''PQ'' \<and>
   commonImports (snd (snd (resume env_rm_b
       (PendingBuild True [new_file ''a'' [''!bundler/_p.scss'', ''!bundler/_q.scss''] ''A'']
          [''/src/_p.scss'', ''/src/_q.scss''])
       (snd (on_unlink env_rm_b ''/src/b.scss'' (proc0, bundler0)))))) =
     Some [''/src/_p.scss'', ''/src/_q.scss'']"
  by (simp add: ex_defs handler_defs model_defs path_defs)

text \<open>
  Claim C8, as amended. The dedup flag is one variable of the module, shared by all
  \<^verbatim>\<open>Bundler\<close> instances. A change event that reaches \<open>compileSingle\<close> (for an entry, or
  for a partial that is a common import) and whose compilation fails sets the flag,
  whichever instance handles it; the next generic event of any instance whose error flag
  is set, the same instance or another one, clears the flag and does nothing else.
\<close>

theorem dedup_flag_shared_by_instances:
  assumes "commonImports b1 = Some ci" and "compiledFiles b1 = Some cfs"
    and "\<not> compilationError b1"
    and "\<not> startsWith (path_basename p) ''_'' \<or> p \<in> set ci"
    and "renderWithImporter e p = (urls, Failed m)"
    and "compilationError b2"
  shows "\<exists>g1 b1'. on_change e p (g, b1) = (Returned, g1, b1') \<and>
     errorDetectedThisCycle g1 \<and> compilationError b1' \<and>
     on_all e' (g1, b2) = (Returned, g1\<lparr>errorDetectedThisCycle := False\<rparr>, b2) \<and>
     on_all e' (g1, b1') = (Returned, g1\<lparr>errorDetectedThisCycle := False\<rparr>, b1')"
proof -
  have fails: "\<exists>g1 b1'. onFileChange_rest e p cfs ci (g0, b0) = (Returned, g1, b1') \<and>
      errorDetectedThisCycle g1 \<and> compilationError b1'" for g0 b0
    using assms(5) by (simp add: onFileChange_rest.simps compileSingle_Failed)
  have "\<exists>g1 b1'. on_change e p (g, b1) = (Returned, g1, b1') \<and>
     errorDetectedThisCycle g1 \<and> compilationError b1'"
  proof (cases "startsWith (path_basename p) ''_''")
    case False
    with assms(1-3) fails [of g b1] show ?thesis
      by (simp add: on_change.simps onFileChange.simps)
  next
    case True
    with assms(4) have "p \<in> set ci" by simp
    obtain g0 b0 where "writeCommon e ci (g, b1) = (g0, b0)"
      by (cases "writeCommon e ci (g, b1)")
    with True \<open>p \<in> set ci\<close> assms(1-3) fails [of g0 b0] show ?thesis
      by (simp add: on_change.simps onFileChange.simps)
  qed
  then obtain g1 b1' where "on_change e p (g, b1) = (Returned, g1, b1')"
    "errorDetectedThisCycle g1" "compilationError b1'"
    by blast
  with assms(6) show ?thesis by (simp add: on_all.simps)
qed

theorem dedup_flag_shared_by_instances_witness:
  "\<not> startsWith (path_basename ''/src/a.scss'') ''_'' \<and>
   renderWithImporter env_two ''/src/a.scss'' = ([], Failed ''syntax error'') \<and>
   compilationError bundler2 \<and>
   on_change env_two ''/src/a.scss'' (proc0, bundler0) =
     (Returned, proc0\<lparr>stderr := [''syntax error''], errorDetectedThisCycle := True\<rparr>,
      bundler0\<lparr>compilationError := True\<rparr>) \<and>
   on_all env_two (proc0\<lparr>stderr := [''syntax error''], errorDetectedThisCycle := True\<rparr>, bundler2) =
     (Returned, proc0\<lparr>stderr := [''syntax error''], errorDetectedThisCycle := False\<rparr>, bundler2) \<and>
   ''/src/_p.scss'' \<in> set [''/src/_p.scss''] \<and>
   renderWithImporter env_p_broken ''/src/_p.scss'' = ([], Failed ''syntax error'') \<and>
   errorDetectedThisCycle (fst (snd (on_change env_p_broken ''/src/_p.scss'' (proc0, bundler0)))) \<and>
   snd (snd (on_all env_p_broken
     (fst (snd (on_change env_p_broken ''/src/_p.scss'' (proc0, bundler0))), bundler2))) = bundler2"
proof -
  have h: "renderWithImporter env_two ''/src/a.scss'' = ([], Failed ''syntax error'')"
    "compilationError bundler2"
    "renderWithImporter env_p_broken ''/src/_p.scss'' = ([], Failed ''syntax error'')"
    by (simp_all add: ex_defs)
  have d: "\<not> startsWith (path_basename ''/src/a.scss'') ''_'' \<or>
           ''/src/a.scss'' \<in> set [''/src/_p.scss'']"
    "\<not> startsWith (path_basename ''/src/_p.scss'') ''_'' \<or>
           ''/src/_p.scss'' \<in> set [''/src/_p.scss'']"
    by (simp_all add: path_defs)
  from dedup_flag_shared_by_instances [OF ex_prem(1-3) d(1) h(1,2), of proc0 env_two]
  have a: "on_all env_two (proc0\<lparr>stderr := [''syntax error''], errorDetectedThisCycle := True\<rparr>, bundler2) =
     (Returned, proc0\<lparr>stderr := [''syntax error''], errorDetectedThisCycle := False\<rparr>, bundler2)"
    by (simp add: ex_change_fails)
  from dedup_flag_shared_by_instances [OF ex_prem(1-3) d(2) h(3,2), of proc0 env_p_broken]
  obtain g1 b1' where p: "on_change env_p_broken ''/src/_p.scss'' (proc0, bundler0) = (Returned, g1, b1')"
    "errorDetectedThisCycle g1"
    "on_all env_p_broken (g1, bundler2) = (Returned, g1\<lparr>errorDetectedThisCycle := False\<rparr>, bundler2)"
    by blast
  from p have "errorDetectedThisCycle (fst (snd (on_change env_p_broken ''/src/_p.scss'' (proc0, bundler0))))"
    "snd (snd (on_all env_p_broken
       (fst (snd (on_change env_p_broken ''/src/_p.scss'' (proc0, bundler0))), bundler2))) = bundler2"
    by simp_all
  with h a ex_prem(4) ex_change_fails show ?thesis by simp
qed

text \<open>
  The claim C8 as first stated has the flag scoped to an instance. Here a second instance
  is in the error state and the flag is clear: its generic event runs a full build and
  clears its error flag. If the first instance handles, before that, the change of a
  common partial that no longer compiles, its handler ends with the flag set (it sets the
  flag after its first \<^verbatim>\<open>await\<close>, when the generic listener of the first instance has
  been called for this notification already). The same generic event of the second
  instance is then suppressed, and its error flag stays set.
\<close>

theorem dedup_flag_shared_by_instances_counterexample:
  "compilationError bundler2 \<and> \<not> errorDetectedThisCycle proc0 \<and>
   compilationError (snd (snd (on_all env_p_broken (proc0, bundler2)))) = False \<and>
   compiledFiles (snd (snd (on_all env_p_broken (proc0, bundler2)))) =
     Some [mkFile ''/src2/x.scss'' [] ''X'' ''/out2/x.css'' True] \<and>
   compilationError (snd (snd (on_all env_p_broken
     (fst (snd (on_change env_p_broken ''/src/_p.scss'' (proc0, bundler0))), bundler2)))) = True \<and>
   compiledFiles (snd (snd (on_all env_p_broken
     (fst (snd (on_change env_p_broken ''/src/_p.scss'' (proc0, bundler0))), bundler2)))) = None"
  by (simp add: ex_defs handler_defs model_defs path_defs)

text \<open>
  Claim C9, as amended. A full build compiles exactly the names that the listing of the
  source directory gives and that do not start with \<^verbatim>\<open>_\<close>, each as the file of that name
  in the source directory. It lists no other directory: a file below a subdirectory is not
  compiled. Suppose that the error flag is not set when the build begins, that there is at
  least one such name, that each of them compiles and each import it tracks compiles on
  its own, that no two of them have the same output name (as \<^verbatim>\<open>a.scss\<close> and \<^verbatim>\<open>a.sass\<close>
  have), that the shared path is none of their output paths, and that the directory of the
  shared path exists once the output directory has been emptied. Then the build, with or
  without \<open>persist\<close>, returns with the error flag unset. The output file of each entry, at
  the output directory joined with the name of the entry, \<^verbatim>\<open>.scss\<close> or \<^verbatim>\<open>.sass\<close> rewritten
  to \<^verbatim>\<open>.css\<close>, holds the text of the imports of the entry, in their order, after one
  occurrence of each common import was taken out of the list, followed by the text of the
  entry itself. The shared file holds the text of the common imports. The output directory
  holds no other file, and the files outside it are as before. With \<open>persist\<close> the
  artifacts and the common imports are stored; without it the stored ones stay.
\<close>

theorem buildAll_compiles_directory_entries:
  "(\<exists>g1 b1. compileDir e (sassDir (config b)) (cleanDist b g, b) =
      (map (\<lambda>f. compiledOf e (config b) (path_join (sassDir (config b)) f))
         (entryNames e (sassDir (config b))), g1, b1)) \<and>
   (\<not> compilationError b \<and> entryNames e (sassDir (config b)) \<noteq> [] \<and>
    (\<forall>f\<in>set (entryNames e (sassDir (config b))).
       compiles e (path_join (sassDir (config b)) f) \<and>
       (\<forall>i\<in>set (importsList (compiledOf e (config b) (path_join (sassDir (config b)) f))).
          rendersPlain e i)) \<and>
    distinct (map replace_ext (entryNames e (sassDir (config b)))) \<and>
    (\<forall>f\<in>set (entryNames e (sassDir (config b))).
       sharedPath (config b) \<noteq> outDir (config b) @ ''/'' @ replace_ext f) \<and>
    dirExists (cleanDist b g) (path_dirname (sharedPath (config b))) \<longrightarrow>
    (\<exists>g' b' ci files.
       buildAll e persist (g, b) = (Returned, g', b') \<and>
       identifyCommonImports
         (map (\<lambda>f. compiledOf e (config b) (path_join (sassDir (config b)) f))
            (entryNames e (sassDir (config b)))) = Inr ci \<and>
       map filePath files =
         map (path_join (sassDir (config b))) (entryNames e (sassDir (config b))) \<and>
       \<not> compilationError b' \<and>
       compiledFiles b' = (if persist then Some files else compiledFiles b) \<and>
       commonImports b' = (if persist then Some ci else commonImports b) \<and>
       (\<forall>f\<in>set (entryNames e (sassDir (config b))).
          disk g' (outDir (config b) @ ''/'' @ replace_ext f) =
            Some (concat (map (plainCss e)
                    (removeA (importsList
                       (compiledOf e (config b) (path_join (sassDir (config b)) f))) ci)) @
                  ownCss e (path_join (sassDir (config b)) f))) \<and>
       disk g' (sharedPath (config b)) = Some (concat (map (plainCss e) ci)) \<and>
       (\<forall>p. p \<noteq> sharedPath (config b) \<and>
            (\<forall>f\<in>set (entryNames e (sassDir (config b))).
               p \<noteq> outDir (config b) @ ''/'' @ replace_ext f) \<longrightarrow>
            disk g' p = (if inside (outDir (config b)) p then None else disk g p))))"
proof -
  let ?d = "sassDir (config b)"
  let ?names = "entryNames e ?d"
  let ?cf = "\<lambda>f. compiledOf e (config b) (path_join ?d f)"
  let ?files = "map ?cf ?names"
  let ?out = "\<lambda>f. outDir (config b) @ ''/'' @ replace_ext f"
  let ?shared = "sharedPath (config b)"
  from compileDir_loop_result [of e ?d "readdirSync e ?d" "[]" "cleanDist b g" b]
  obtain g2 b2 where loop:
    "compileDir_loop e ?d (readdirSync e ?d) [] (cleanDist b g, b) = (?files, g2, b2)"
    "config b2 = config b" "compiledFiles b2 = compiledFiles b" "commonImports b2 = commonImports b"
    "compilationError b2 =
       (compilationError b \<or>
        (\<exists>f\<in>set (readdirSync e ?d). \<not> startsWith f ''_'' \<and> \<not> compiles e (path_join ?d f)))"
    "\<forall>p. disk g2 p =
        (if \<exists>f\<in>set (readdirSync e ?d). \<not> startsWith f ''_'' \<and> compiles e (path_join ?d f) \<and>
               p = absoluteCssPath (config b) (path_join ?d f) \<and>
               dirExists (cleanDist b g) (path_dirname p)
         then Some [] else disk (cleanDist b g) p)"
    "dirs g2 = dirs (cleanDist b g)"
    unfolding entryNames_def by auto
  from loop(1) have first: "\<exists>g1 b1. compileDir e ?d (cleanDist b g, b) = (?files, g1, b1)"
    by (simp add: compileDir_def)
  have second: "\<exists>g' b' ci files.
       buildAll e persist (g, b) = (Returned, g', b') \<and>
       identifyCommonImports ?files = Inr ci \<and>
       map filePath files = map (path_join ?d) ?names \<and>
       \<not> compilationError b' \<and>
       compiledFiles b' = (if persist then Some files else compiledFiles b) \<and>
       commonImports b' = (if persist then Some ci else commonImports b) \<and>
       (\<forall>f\<in>set ?names.
          disk g' (?out f) =
            Some (concat (map (plainCss e) (removeA (importsList (?cf f)) ci)) @
                  ownCss e (path_join ?d f))) \<and>
       disk g' ?shared = Some (concat (map (plainCss e) ci)) \<and>
       (\<forall>p. p \<noteq> ?shared \<and> (\<forall>f\<in>set ?names. p \<noteq> ?out f) \<longrightarrow>
            disk g' p = (if inside (outDir (config b)) p then None else disk g p))"
    if noflag: "\<not> compilationError b" and ne: "?names \<noteq> []"
      and ok: "\<forall>f\<in>set ?names. compiles e (path_join ?d f) \<and>
                 (\<forall>i\<in>set (importsList (?cf f)). rendersPlain e i)"
      and dist: "distinct (map replace_ext ?names)"
      and sh: "\<forall>f\<in>set ?names. ?shared \<noteq> ?out f"
      and shdir: "dirExists (cleanDist b g) (path_dirname ?shared)"
  proof -
    have mem: "f \<in> set (readdirSync e ?d) \<and> \<not> startsWith f ''_''" if "f \<in> set ?names" for f
      using that by (simp add: entryNames_def)
    from noflag ok loop(5) have noerr: "\<not> compilationError b2"
      by (auto simp: entryNames_def)
    have outp: "absoluteCssPath (config b) (path_join ?d f) = ?out f" if "f \<in> set ?names" for f
      using that by (rule entry_output)
    have opened: "disk g2 (?out f) = Some []" if "f \<in> set ?names" for f
    proof -
      from that mem have m: "f \<in> set (readdirSync e ?d)" "\<not> startsWith f ''_''" by auto
      from m(1) have "dirExists (cleanDist b g)
          (path_dirname (absoluteCssPath (config b) (path_join ?d f)))"
        by (intro entry_dir_exists readdirSync_no_slash)
      with m that ok loop(6) have "disk g2 (absoluteCssPath (config b) (path_join ?d f)) = Some []"
        by auto
      with outp [OF that] show ?thesis by simp
    qed
    have rest: "disk g2 p = (if inside (outDir (config b)) p then None else disk g p)"
      if "\<forall>f\<in>set ?names. p \<noteq> ?out f" for p
    proof -
      have "\<not> (\<exists>f\<in>set (readdirSync e ?d). \<not> startsWith f ''_'' \<and> compiles e (path_join ?d f) \<and>
               p = absoluteCssPath (config b) (path_join ?d f) \<and>
               dirExists (cleanDist b g) (path_dirname p))"
      proof
        assume "\<exists>f\<in>set (readdirSync e ?d). \<not> startsWith f ''_'' \<and> compiles e (path_join ?d f) \<and>
               p = absoluteCssPath (config b) (path_join ?d f) \<and>
               dirExists (cleanDist b g) (path_dirname p)"
        then obtain f where f: "f \<in> set (readdirSync e ?d)" "\<not> startsWith f ''_''"
          "p = absoluteCssPath (config b) (path_join ?d f)"
          by blast
        then have "f \<in> set ?names" by (simp add: entryNames_def)
        with that outp f(3) show False by auto
      qed
      with loop(6) have "disk g2 p = disk (cleanDist b g) p" by (simp only: if_not_P if_False)
      then show ?thesis by (simp add: cleanDist_def)
    qed
    have ws: "writeStream (?cf f) = Some \<lparr>wpath = ?out f, ended = False\<rparr>"
      and rs: "readStream (?cf f) = Some (ownCss e (path_join ?d f))"
      if "f \<in> set ?names" for f
      using that ok outp by (simp_all add: compiledOf_simps(3) compiledOf_readStream)
    have fresh: "\<forall>cf\<in>set ?files. (\<exists>css. readStream cf = Some css) \<and>
             (\<exists>w. writeStream cf = Some w \<and> \<not> ended w \<and> disk g2 (wpath w) = Some []) \<and>
             (\<forall>i\<in>set (importsList cf). rendersPlain e i)"
      using ws rs opened ok by auto
    have "map (\<lambda>cf. map_option wpath (writeStream cf)) ?files =
        map (\<lambda>x. Some (outDir (config b) @ ''/'' @ x)) (map replace_ext ?names)"
      using ws by simp
    moreover from dist
    have "distinct (map (\<lambda>x. Some (outDir (config b) @ ''/'' @ x)) (map replace_ext ?names))"
      by (subst distinct_map) (simp add: inj_on_def)
    ultimately have dst: "distinct (map (\<lambda>cf. map_option wpath (writeStream cf)) ?files)"
      by (simp only:)
    from ne have nef: "?files \<noteq> []" by simp
    from identifyCommonImports_set [OF nef]
    obtain ci where ci: "identifyCommonImports ?files = Inr ci"
      "set ci = (\<Inter>f\<in>set ?files. set (importsList f))"
      by blast
    from bundle_files_content [OF fresh dst, of ci]
    obtain files' g3 where bf: "bundle_files e ?files ci g2 = (Returned, files', g3)"
      "map filePath files' = map filePath ?files"
      "\<forall>cf\<in>set ?files. \<forall>w css. writeStream cf = Some w \<longrightarrow> readStream cf = Some css \<longrightarrow>
          disk g3 (wpath w) =
            Some (concat (map (plainCss e) (removeA (importsList cf) ci)) @ css)"
      "\<forall>q. (\<forall>cf\<in>set ?files. \<forall>w. writeStream cf = Some w \<longrightarrow> q \<noteq> wpath w) \<longrightarrow>
          disk g3 q = disk g2 q"
      "dirs g3 = dirs g2"
      by blast
    from ne obtain f0 where f0: "f0 \<in> set ?names" by (cases ?names) auto
    with ci(2) have "set ci \<subseteq> set (importsList (?cf f0))" by auto
    with ok f0 have cip: "\<forall>i\<in>set ci. rendersPlain e i" by blast
    from writeCommon_content [OF cip, of g3 b2]
    obtain g4 where wc: "writeCommon e ci (g3, b2) = (g4, b2)"
      "dirExists g3 (path_dirname (sharedPath (config b2))) \<longrightarrow>
         disk g4 (sharedPath (config b2)) = Some (concat (map (plainCss e) ci))"
      "\<forall>q. q \<noteq> sharedPath (config b2) \<longrightarrow> disk g4 q = disk g3 q"
      by blast
    let ?b' = "if persist then b2\<lparr>compiledFiles := Some files', commonImports := Some ci\<rparr> else b2"
    have run: "buildAll e persist (g, b) = (Returned, g4, ?b')"
      using loop(1) noerr ci(1) bf(1) wc(1)
      by (simp add: buildAll_def buildAll_start.simps buildAll_rest.simps compileDir_def)
    have paths: "map filePath files' = map (path_join ?d) ?names"
      using bf(2) by (simp add: compiledOf_simps comp_def)
    have "dirExists g3 = dirExists (cleanDist b g)"
      using bf(5) loop(7) by (simp add: dirExists_def fun_eq_iff)
    with wc(2) shdir loop(2) have shared: "disk g4 ?shared = Some (concat (map (plainCss e) ci))"
      by simp
    have entry: "disk g4 (?out f) =
        Some (concat (map (plainCss e) (removeA (importsList (?cf f)) ci)) @
              ownCss e (path_join ?d f))"
      if "f \<in> set ?names" for f
    proof -
      from that have "?cf f \<in> set ?files" by simp
      with bf(3) ws [OF that] rs [OF that]
      have "disk g3 (?out f) =
          Some (concat (map (plainCss e) (removeA (importsList (?cf f)) ci)) @
                ownCss e (path_join ?d f))"
        by fastforce
      moreover from sh that have "?out f \<noteq> sharedPath (config b2)" using loop(2) by auto
      ultimately show ?thesis using wc(3) by simp
    qed
    have other: "disk g4 p = (if inside (outDir (config b)) p then None else disk g p)"
      if "p \<noteq> ?shared" "\<forall>f\<in>set ?names. p \<noteq> ?out f" for p
    proof -
      from that(1) wc(3) loop(2) have "disk g4 p = disk g3 p" by simp
      also have "disk g3 p = disk g2 p"
        using bf(4) that(2) ws by auto
      also have "disk g2 p = (if inside (outDir (config b)) p then None else disk g p)"
        using that(2) by (rule rest)
      finally show ?thesis .
    qed
    have flds: "\<not> compilationError ?b'"
      "compiledFiles ?b' = (if persist then Some files' else compiledFiles b)"
      "commonImports ?b' = (if persist then Some ci else commonImports b)"
      using noerr loop(3,4) by simp_all
    from run ci(1) paths flds entry shared other show ?thesis by blast
  qed
  from first second show ?thesis by blast
qed

theorem buildAll_compiles_directory_entries_witness:
  "\<not> compilationError bundler_init \<and>
   entryNames env0 (sassDir (config bundler_init)) = [''a.scss'', ''b.scss''] \<and>
   compiles env0 ''/src/a.scss'' \<and> compiles env0 ''/src/b.scss'' \<and>
   distinct (map replace_ext [''a.scss'', ''b.scss'']) \<and>
   dirExists (cleanDist bundler_init proc_stale) (path_dirname (sharedPath (config bundler_init))) \<and>
   disk proc_stale ''/out/old.css'' = Some ''OLD'' \<and>
   fst (buildAll env0 False (proc_stale, bundler_init)) = Returned \<and>
   \<not> compilationError (snd (snd (buildAll env0 False (proc_stale, bundler_init)))) \<and>
   compiledFiles (snd (snd (buildAll env0 False (proc_stale, bundler_init)))) = None \<and>
   disk (fst (snd (buildAll env0 False (proc_stale, bundler_init)))) ''/out/a.css'' = Some ''QA'' \<and>
   disk (fst (snd (buildAll env0 False (proc_stale, bundler_init)))) ''/out/b.css'' = Some ''RB'' \<and>
   disk (fst (snd (buildAll env0 False (proc_stale, bundler_init)))) ''/out/shared.css'' =
     Some ''P'' \<and>
   disk (fst (snd (buildAll env0 False (proc_stale, bundler_init)))) ''/out/old.css'' = None \<and>
   disk (fst (snd (buildAll env0 False (proc_stale, bundler_init)))) ''/elsewhere.css'' =
     Some ''E''"
proof -
  have n: "entryNames env0 (sassDir (config bundler_init)) = [''a.scss'', ''b.scss'']"
    by (simp add: ex_defs notion_defs path_defs)
  have c: "compiles env0 ''/src/a.scss''" "compiles env0 ''/src/b.scss''"
    by (simp_all add: ex_defs notion_defs)
  have i: "importsList (compiledOf env0 (config bundler_init) ''/src/a.scss'') =
             [''/src/_p.scss'', ''/src/_q.scss'']"
    "importsList (compiledOf env0 (config bundler_init) ''/src/b.scss'') =
             [''/src/_p.scss'', ''/src/_r.scss'']"
    by (simp_all add: ex_defs notion_defs sassImporter_def path_defs)
  have r: "rendersPlain env0 ''/src/_p.scss''" "rendersPlain env0 ''/src/_q.scss''"
    "rendersPlain env0 ''/src/_r.scss''"
    by (simp_all add: ex_defs notion_defs)
  have t: "plainCss env0 ''/src/_p.scss'' = ''P''" "plainCss env0 ''/src/_q.scss'' = ''Q''"
    "plainCss env0 ''/src/_r.scss'' = ''R''"
    "ownCss env0 ''/src/a.scss'' = ''A''" "ownCss env0 ''/src/b.scss'' = ''B''"
    by (simp_all add: ex_defs plainCss_def ownCss_def)
  have j: "path_join (sassDir (config bundler_init)) ''a.scss'' = ''/src/a.scss''"
    "path_join (sassDir (config bundler_init)) ''b.scss'' = ''/src/b.scss''"
    by (simp_all add: ex_defs path_defs)
  have o: "outDir (config bundler_init) = ''/out''"
    "sharedPath (config bundler_init) = ''/out/shared.css''"
    "replace_ext ''a.scss'' = ''a.css''" "replace_ext ''b.scss'' = ''b.css''"
    by (simp_all add: ex_defs path_defs)
  have d: "dirExists (cleanDist bundler_init proc_stale)
      (path_dirname (sharedPath (config bundler_init)))"
    by (simp add: ex_defs path_defs cleanDist_def)
  have s: "disk proc_stale ''/out/old.css'' = Some ''OLD''"
    "disk proc_stale ''/elsewhere.css'' = Some ''E''"
    "compiledFiles bundler_init = None" "\<not> compilationError bundler_init"
    by (simp_all add: ex_defs)
  have k: "identifyCommonImports
      [compiledOf env0 (config bundler_init) ''/src/a.scss'',
       compiledOf env0 (config bundler_init) ''/src/b.scss''] = Inr [''/src/_p.scss'']"
    by (simp add: identifyCommonImports_def isCommonImport_def i)
  have h: "\<not> compilationError bundler_init \<and>
    entryNames env0 (sassDir (config bundler_init)) \<noteq> [] \<and>
    (\<forall>f\<in>set (entryNames env0 (sassDir (config bundler_init))).
       compiles env0 (path_join (sassDir (config bundler_init)) f) \<and>
       (\<forall>i\<in>set (importsList (compiledOf env0 (config bundler_init)
             (path_join (sassDir (config bundler_init)) f))).
          rendersPlain env0 i)) \<and>
    distinct (map replace_ext (entryNames env0 (sassDir (config bundler_init)))) \<and>
    (\<forall>f\<in>set (entryNames env0 (sassDir (config bundler_init))).
       sharedPath (config bundler_init) \<noteq> outDir (config bundler_init) @ ''/'' @ replace_ext f) \<and>
    dirExists (cleanDist bundler_init proc_stale) (path_dirname (sharedPath (config bundler_init)))"
    using s(4) c i r d by (simp add: n j o)
  note T = buildAll_compiles_directory_entries [of env0 bundler_init proc_stale False]
  from T h obtain g' b' ci where run: "buildAll env0 False (proc_stale, bundler_init) = (Returned, g', b')"
    and ci: "identifyCommonImports
       (map (\<lambda>f. compiledOf env0 (config bundler_init) (path_join (sassDir (config bundler_init)) f))
          (entryNames env0 (sassDir (config bundler_init)))) = Inr ci"
    and fl: "\<not> compilationError b'" "compiledFiles b' = compiledFiles bundler_init"
    and en: "\<forall>f\<in>set (entryNames env0 (sassDir (config bundler_init))).
          disk g' (outDir (config bundler_init) @ ''/'' @ replace_ext f) =
            Some (concat (map (plainCss env0)
                    (removeA (importsList
                       (compiledOf env0 (config bundler_init)
                          (path_join (sassDir (config bundler_init)) f))) ci)) @
                  ownCss env0 (path_join (sassDir (config bundler_init)) f))"
    and sh: "disk g' (sharedPath (config bundler_init)) = Some (concat (map (plainCss env0) ci))"
    and ot: "\<forall>p. p \<noteq> sharedPath (config bundler_init) \<and>
            (\<forall>f\<in>set (entryNames env0 (sassDir (config bundler_init))).
               p \<noteq> outDir (config bundler_init) @ ''/'' @ replace_ext f) \<longrightarrow>
            disk g' p = (if inside (outDir (config bundler_init)) p then None else disk proc_stale p)"
    by (elim conjE impE exE) simp_all
  from ci k have ci': "ci = [''/src/_p.scss'']" by (simp add: n j)
  from en have "disk g' ''/out/a.css'' = Some ''QA''" "disk g' ''/out/b.css'' = Some ''RB''"
    by (simp_all add: n j o i t ci' removeA_def)
  moreover from sh have "disk g' ''/out/shared.css'' = Some ''P''"
    by (simp add: o t ci')
  moreover from ot have "disk g' ''/out/old.css'' = None" "disk g' ''/elsewhere.css'' = Some ''E''"
    by (simp_all add: n o s inside_def)
  ultimately show ?thesis using run fl s n c d o by simp
qed

text \<open>
  The claim C9 as first stated includes the files in nested subdirectories. Here the
  source directory holds \<^verbatim>\<open>a.scss\<close> and a subdirectory \<^verbatim>\<open>sub\<close> with the entry
  \<^verbatim>\<open>x.scss\<close>, which compiles. The build hands the path of \<^verbatim>\<open>sub\<close> itself to the compiler
  and never reaches \<^verbatim>\<open>x.scss\<close>: no file \<^verbatim>\<open>/out/sub/x.css\<close> is written.
\<close>

theorem buildAll_compiles_directory_entries_counterexample:
  "''sub'' \<in> set (readdirSync env_nested ''/src'') \<and>
   ''x.scss'' \<in> set (readdirSync env_nested ''/src/sub'') \<and>
   \<not> startsWith ''x.scss'' ''_'' \<and>
   compiles env_nested ''/src/sub/x.scss'' \<and>
   sassDir (config bundler_init) = ''/src'' \<and> outDir (config bundler_init) = ''/out'' \<and>
   fst (buildAll env_nested True (proc_init, bundler_init)) = Returned \<and>
   disk (fst (snd (buildAll env_nested True (proc_init, bundler_init)))) ''/out/sub/x.css'' = None \<and>
   compilationError (snd (snd (buildAll env_nested True (proc_init, bundler_init)))) \<and>
   compiledFiles (snd (snd (buildAll env_nested True (proc_init, bundler_init)))) = None"
  by (simp add: ex_defs notion_defs model_defs path_defs)

text \<open>
  Claim C10, as amended. When \<open>compileSingle\<close> succeeds it returns an artifact with a new
  write stream at the output path it computed, and nothing has been bundled yet. The file
  is opened behind the stream, without the code waiting for it; the state after the call
  shows the files as that open leaves them. If the directory of the output path exists,
  the open creates the file at that path, or empties it: once the open has completed the
  file is there and empty, whatever was there before. If the directory does not exist, the
  open fails and no file is created or changed. A change event for an entry that compiles,
  has no prior artifact and has an output path in a directory that exists ends with a
  warning and leaves that created or emptied file behind.
\<close>

theorem compileSingle_opens_output:
  assumes "renderWithImporter e p = (urls, Css css)"
  shows "(\<exists>file. compileSingle e p (g, b) =
            (file,
             (if dirExists g (path_dirname (absoluteCssPath (config b) p))
              then g\<lparr>disk := (disk g)(absoluteCssPath (config b) p \<mapsto> [])\<rparr> else g), b) \<and>
            readStream file = Some css \<and>
            writeStream file = Some \<lparr>wpath = absoluteCssPath (config b) p, ended = False\<rparr>) \<and>
         (dirExists g (path_dirname (absoluteCssPath (config b) p)) \<and>
          commonImports b = Some ci \<and> compiledFiles b = Some cfs \<and> \<not> compilationError b \<and>
          \<not> startsWith (path_basename p) ''_'' \<and> findIndex (\<lambda>f. filePath f = p) cfs = None \<longrightarrow>
          onFileChange e p (g, b) =
            (Returned,
             g\<lparr>disk := (disk g)(absoluteCssPath (config b) p \<mapsto> []),
               stderr := stderr g @ [warnPreviousNotFound]\<rparr>, b))"
  using assms
  by (simp add: compileSingle_Css openFile_def onFileChange.simps onFileChange_rest.simps)

theorem compileSingle_opens_output_witness:
  "renderWithImporter (env_add ''c.scss'' [] ''C'') ''/src/c.scss'' = ([], Css ''C'') \<and>
   findIndex (\<lambda>f. filePath f = ''/src/c.scss'') [file_a, file_b] = None \<and>
   absoluteCssPath (config bundler0) ''/src/c.scss'' = ''/out/c.css'' \<and>
   dirExists proc0 (path_dirname ''/out/c.css'') \<and>
   disk proc0 ''/out/c.css'' = None \<and>
   compileSingle (env_add ''c.scss'' [] ''C'') ''/src/c.scss'' (proc0, bundler0) =
     (new_file ''c'' [] ''C'', opened ''c'' proc0, bundler0) \<and>
   onFileChange (env_add ''c.scss'' [] ''C'') ''/src/c.scss'' (proc0, bundler0) =
     (Returned, (opened ''c'' proc0)\<lparr>stderr := [warnPreviousNotFound]\<rparr>, bundler0) \<and>
   disk (opened ''c'' proc0) ''/out/c.css'' = Some []"
proof -
  note T = compileSingle_opens_output [OF ex_prem_add(1) [of "[]" "''C''"],
      of proc0 bundler0 "[''/src/_p.scss'']" "[file_a, file_b]"]
  have out: "absoluteCssPath (config bundler0) ''/src/c.scss'' = ''/out/c.css''"
    by (simp add: ex_defs path_defs)
  have dir: "dirExists proc0 (path_dirname ''/out/c.css'')"
    by (simp add: ex_defs path_defs)
  have st: "stderr proc0 = []" "disk proc0 ''/out/c.css'' = None"
    "disk (opened ''c'' proc0) ''/out/c.css'' = Some []"
    by (simp_all add: ex_defs)
  from T ex_prem(1-3) ex_prem_add(3,5) out dir st
  have "onFileChange (env_add ''c.scss'' [] ''C'') ''/src/c.scss'' (proc0, bundler0) =
     (Returned, (opened ''c'' proc0)\<lparr>stderr := [warnPreviousNotFound]\<rparr>, bundler0)"
    by (simp add: opened_def)
  with ex_prem_add(1,5) out dir st ex_compile_add(1) [of "[]" "''C''"] show ?thesis by simp
qed

text \<open>
  The claim C10 as first stated has every successful \<open>compileSingle\<close> create or empty the
  output file. Here the entry \<^verbatim>\<open>/src/sub/x.scss\<close> compiles, and its output path lies in
  the directory \<^verbatim>\<open>/out/sub\<close>, which nothing has made: \<open>compileSingle\<close> returns the
  artifact with its stream, and no file \<^verbatim>\<open>/out/sub/x.css\<close> comes to be, neither by
  \<open>compileSingle\<close> nor by the change event that ends with the warning.
\<close>

theorem compileSingle_opens_output_counterexample:
  "renderWithImporter env_sub ''/src/sub/x.scss'' = ([], Css ''X'') \<and>
   absoluteCssPath (config bundler0) ''/src/sub/x.scss'' = ''/out/sub/x.css'' \<and>
   path_dirname ''/out/sub/x.css'' = ''/out/sub'' \<and>
   \<not> dirExists proc0 ''/out/sub'' \<and>
   findIndex (\<lambda>f. filePath f = ''/src/sub/x.scss'') [file_a, file_b] = None \<and>
   readStream (fst (compileSingle env_sub ''/src/sub/x.scss'' (proc0, bundler0))) = Some ''X'' \<and>
   writeStream (fst (compileSingle env_sub ''/src/sub/x.scss'' (proc0, bundler0))) =
     Some \<lparr>wpath = ''/out/sub/x.css'', ended = False\<rparr> \<and>
   \<not> compilationError (snd (snd (compileSingle env_sub ''/src/sub/x.scss'' (proc0, bundler0)))) \<and>
   disk (fst (snd (compileSingle env_sub ''/src/sub/x.scss'' (proc0, bundler0))))
     ''/out/sub/x.css'' = None \<and>
   stderr (fst (snd (onFileChange env_sub ''/src/sub/x.scss'' (proc0, bundler0)))) =
     [warnPreviousNotFound] \<and>
   disk (fst (snd (onFileChange env_sub ''/src/sub/x.scss'' (proc0, bundler0))))
     ''/out/sub/x.css'' = None"
  by (simp add: ex_defs handler_defs model_defs path_defs)
end
